theory Spec2Isabelle
  imports Main "HOL-Library.Word"
begin

section \<open>credis: a shallow embedding of the protocol engine of credis.c\<close>

text \<open>
  The C source keeps one connection object (\<open>cr_redis\<close>) with a byte buffer that is used
  both for the rendered command and for the reply, a multibulk store and the last reply.
  The embedding follows the source function by function.

  \<^item> C \<open>int\<close> values (indices, lengths, return codes) are HOL \<open>int\<close>. Where a server can
    drive a sum out of the range of \<open>int\<close> (the declared length of a bulk value enters the
    arithmetic of \<open>cr_readln\<close>, and the buffer grows by what is asked for), the wrap-around
    of 32-bit arithmetic is written out with \<open>c_int\<close>; \<open>atoi\<close> reduces its result to 32
    bits in the same way.
  \<^item> A \<open>char *\<close> into the buffer is the offset from \<open>buf.data\<close>; \<open>NULL\<close> is \<open>None\<close>.
  \<^item> The buffer's memory block is a \<open>char list\<close> whose length is the capacity. Reading
    outside of the block is undefined behaviour in C; the model returns \<open>Fault\<close> there.
  \<^item> \<open>realloc\<close> hands out a new block and frees the old one. The buffer counts its blocks
    (\<open>buf_gen\<close>), and a pointer that outlives a call which may grow the buffer is kept
    together with the count of the block it points into: reading through it after the
    buffer has grown is a use of freed memory, and the model returns \<open>Fault\<close> there.
  \<^item> The socket is a script of events, consumed by \<open>select\<close>/\<open>recv\<close>/\<open>send\<close>.
  \<^item> The allocator is a pair of functions: whether a request for so many bytes succeeds,
    and which bytes the fresh memory holds. With them comes \<open>uninit\<close>, the value that an
    uninitialised local variable of type \<open>int\<close> or \<open>char *\<close> happens to hold.
\<close>

subsection \<open>Constants of credis.h and credis.c\<close>

definition CREDIS_OK :: int where "CREDIS_OK = 0"
definition CREDIS_ERR :: int where "CREDIS_ERR = - 90"
definition CREDIS_ERR_NOMEM :: int where "CREDIS_ERR_NOMEM = - 91"
definition CREDIS_ERR_RESOLVE :: int where "CREDIS_ERR_RESOLVE = - 92"
definition CREDIS_ERR_CONNECT :: int where "CREDIS_ERR_CONNECT = - 93"
definition CREDIS_ERR_SEND :: int where "CREDIS_ERR_SEND = - 94"
definition CREDIS_ERR_RECV :: int where "CREDIS_ERR_RECV = - 95"
definition CREDIS_ERR_TIMEOUT :: int where "CREDIS_ERR_TIMEOUT = - 96"
definition CREDIS_ERR_PROTOCOL :: int where "CREDIS_ERR_PROTOCOL = - 97"

definition CR_ERROR :: char where "CR_ERROR = CHR ''-''"
definition CR_INLINE :: char where "CR_INLINE = CHR ''+''"
definition CR_BULK :: char where "CR_BULK = CHR ''$''"
definition CR_MULTIBULK :: char where "CR_MULTIBULK = CHR ''*''"
definition CR_INT :: char where "CR_INT = CHR '':''"

definition CR_BUFFER_SIZE :: int where "CR_BUFFER_SIZE = 4096"
definition CR_BUFFER_WATERMARK :: int where "CR_BUFFER_WATERMARK = CR_BUFFER_SIZE div 10 + 1"
definition CR_MULTIBULK_SIZE :: int where "CR_MULTIBULK_SIZE = 256"

definition CR :: char where "CR = CHR 0x0D"
definition LF :: char where "LF = CHR 0x0A"
definition NUL :: char where "NUL = CHR 0x00"
definition CRLF :: string where "CRLF = [CR, LF]"

subsection \<open>Outcomes, memory and the allocator\<close>

datatype 'a exec = Fault | Ret 'a

text \<open>C's \<open>/\<close> on \<open>int\<close> truncates towards zero.\<close>

definition c_div :: "int \<Rightarrow> int \<Rightarrow> int" where
  "c_div a b = (if (a < 0) = (b < 0) then \<bar>a\<bar> div \<bar>b\<bar> else - (\<bar>a\<bar> div \<bar>b\<bar>))"

text \<open>
  An \<open>int\<close> has 32 bits: the result of an \<open>int\<close> operation whose exact value is \<open>v\<close> is
  \<open>c_int v\<close>, the value in \<open>[-2^31, 2^31)\<close> that differs from \<open>v\<close> by a multiple of \<open>2^32\<close>.
\<close>

definition INT_MAX :: int where "INT_MAX = 2147483647"

definition c_int :: "int \<Rightarrow> int" where
  "c_int v = (v + 2147483648) mod 4294967296 - 2147483648"

definition peek :: "char list \<Rightarrow> int \<Rightarrow> char option" where
  "peek mem p = (if 0 \<le> p \<and> p < int (length mem) then Some (mem ! nat p) else None)"

text \<open>\<open>blit mem off bs\<close>: the block after \<open>bs\<close> was stored at offset \<open>off\<close>.\<close>

definition blit :: "char list \<Rightarrow> nat \<Rightarrow> char list \<Rightarrow> char list" where
  "blit mem off bs = take off mem @ bs @ drop (off + length bs) mem"

text \<open>The zero-terminated string that starts at offset \<open>p\<close>.\<close>

definition cstr :: "char list \<Rightarrow> int \<Rightarrow> string" where
  "cstr mem p = takeWhile (\<lambda>c. c \<noteq> NUL) (drop (nat p) mem)"

record heap =
  can_alloc :: "int \<Rightarrow> bool"
  fresh :: "nat \<Rightarrow> char"
  uninit :: int

text \<open>\<open>realloc\<close>: on success the old bytes are kept and the block has \<open>tot\<close> bytes.\<close>

definition realloc :: "heap \<Rightarrow> char list \<Rightarrow> int \<Rightarrow> char list option" where
  "realloc H mem tot =
     (if can_alloc H tot
      then Some (take (nat tot) (mem @ map (fresh H) [length mem ..< nat tot]))
      else None)"

subsection \<open>The data model\<close>

text \<open>
  The structs of credis.c, field by field. Two fields have no counterpart in C:
  \<open>buf_gen\<close> counts the blocks that \<open>realloc\<close> has handed out for the buffer, and
  \<open>reply_bulk_gen\<close> is the count of the block that \<open>reply.bulk\<close> points into.
\<close>

record cr_buffer =
  buf_data :: "char list"
  buf_idx :: int
  buf_len :: int
  buf_size :: int
  buf_gen :: nat

record cr_multibulk =
  mb_bulks :: "int option list"
  mb_idxs :: "int list"
  mb_size :: int
  mb_len :: int

record cr_reply =
  reply_integer :: int
  reply_line :: "int option"
  reply_bulk :: "int option"
  reply_bulk_gen :: nat
  reply_multibulk :: cr_multibulk

record cr_redis =
  version_major :: int
  version_minor :: int
  version_patch :: int
  fd :: int
  ip :: string
  port :: int
  timeout :: int
  buf :: cr_buffer
  reply :: cr_reply
  error :: int

subsection \<open>cr_findnl\<close>

text \<open>
  \<open>cr_findnl buf len\<close> inspects \<open>len\<close> positions; at each it reads the byte there and,
  when that is a carriage return, the byte after it. At the last position the second read
  is of the byte one past the \<open>len\<close> bytes it was given.
\<close>

function cr_findnl :: "char list \<Rightarrow> int \<Rightarrow> int \<Rightarrow> int option exec" where
  "cr_findnl mem p n =
     (if 0 \<le> n - 1 then
        (case peek mem p of
           None \<Rightarrow> Fault
         | Some c \<Rightarrow>
             if c = CR then
               (case peek mem (p + 1) of
                  None \<Rightarrow> Fault
                | Some d \<Rightarrow> if d = LF then Ret (Some p) else cr_findnl mem (p + 1) (n - 1))
             else cr_findnl mem (p + 1) (n - 1))
      else Ret None)"
  by pat_completeness auto
termination
  by (relation "measure (\<lambda>(mem, p, n). nat n)") auto

declare cr_findnl.simps [simp del]

subsection \<open>cr_moremem\<close>

text \<open>
  \<open>total\<close> is an \<open>int\<close>, and \<open>realloc\<close> takes a \<open>size_t\<close>. When the exact value of
  \<open>buf->size + n * CR_BUFFER_SIZE\<close> lies above \<open>INT_MAX\<close> the \<open>int\<close> wraps to a negative
  value, and a negative \<open>total\<close> is converted to a request of more than \<open>2^63\<close> bytes, which
  \<open>realloc\<close> refuses. So the growth fails when the exact total is outside of \<open>[0, INT_MAX]\<close>
  (lemma \<open>cr_moremem_total\<close> below relates this to the wrapped sum), and otherwise when
  the allocator says so.
\<close>

definition cr_moremem :: "heap \<Rightarrow> cr_buffer \<Rightarrow> int \<Rightarrow> int \<times> cr_buffer" where
  "cr_moremem H b sz =
     (let n = c_div sz CR_BUFFER_SIZE + 1;
          tot = buf_size b + n * CR_BUFFER_SIZE
      in if tot < 0 \<or> INT_MAX < tot then (- 1, b)
         else
           (case realloc H (buf_data b) tot of
              None \<Rightarrow> (- 1, b)
            | Some mem \<Rightarrow> (0, b\<lparr>buf_data := mem, buf_size := tot, buf_gen := Suc (buf_gen b)\<rparr>)))"

subsection \<open>cr_receivedata\<close>

text \<open>
  One event per call of \<open>cr_receivedata\<close>: \<open>Recv bs\<close>, the socket is readable and \<open>bs\<close> are
  the bytes pending, of which \<open>recv\<close> hands over at most \<open>size\<close>; \<open>RecvErr\<close>, readable but
  \<open>recv\<close> fails; \<open>SelTimeout\<close> and \<open>SelErr\<close>, the two other results of \<open>select\<close>. When the
  script is used up the peer has closed the connection and \<open>recv\<close> returns 0.
\<close>

datatype rx_event = Recv "char list" | RecvErr | SelTimeout | SelErr

fun cr_receivedata :: "rx_event list \<Rightarrow> int \<Rightarrow> int \<times> char list \<times> rx_event list" where
  "cr_receivedata [] sz = (0, [], [])"
| "cr_receivedata (Recv bs # rx) sz =
     (let k = min (nat sz) (length bs)
      in (int k, take k bs, if k < length bs then Recv (drop k bs) # rx else rx))"
| "cr_receivedata (RecvErr # rx) sz = (- 1, [], rx)"
| "cr_receivedata (SelTimeout # rx) sz = (- 2, [], rx)"
| "cr_receivedata (SelErr # rx) sz = (- 1, [], rx)"

fun rx_weight :: "rx_event list \<Rightarrow> nat" where
  "rx_weight [] = 0"
| "rx_weight (Recv bs # rx) = Suc (length bs) + rx_weight rx"
| "rx_weight (e # rx) = Suc (rx_weight rx)"

lemma cr_receivedata_weight:
  "0 < fst (cr_receivedata rx sz) \<Longrightarrow> rx_weight (snd (snd (cr_receivedata rx sz))) < rx_weight rx"
  by (induction rx sz rule: cr_receivedata.induct) (auto simp: Let_def)

lemma cr_receivedata_length:
  "0 \<le> fst (cr_receivedata rx sz) \<Longrightarrow>
   int (length (fst (snd (cr_receivedata rx sz)))) = fst (cr_receivedata rx sz)"
  by (induction rx sz rule: cr_receivedata.induct) (auto simp: Let_def)

subsection \<open>cr_readln\<close>

text \<open>
  The loop of \<open>cr_readln\<close>. It ends with \<open>Inr nl\<close> when the terminator was found at offset
  \<open>nl\<close>, and with \<open>Inl rc\<close> at one of the \<open>return\<close>s inside the loop. \<open>start\<close> is the declared
  length of a bulk value, any \<open>int\<close> that the server cares to send: the sums
  \<open>buf->idx + start + 2 - buf->len\<close> and \<open>buf->len - (buf->idx + start)\<close> are \<open>int\<close> sums and
  wrap, while \<open>buf->data + buf->idx + start\<close> is pointer arithmetic and does not.
\<close>

function cr_readln_loop ::
  "heap \<Rightarrow> cr_buffer \<Rightarrow> int \<Rightarrow> int \<Rightarrow> rx_event list \<Rightarrow> ((int + int) \<times> cr_buffer \<times> rx_event list) exec"
where
  "cr_readln_loop H b start more' rx =
     (case (if 0 < more' then Ret None
            else cr_findnl (buf_data b) (buf_idx b + start) (c_int (buf_len b - c_int (buf_idx b + start)))) of
        Fault \<Rightarrow> Fault
      | Ret (Some nl) \<Rightarrow> Ret (Inr nl, b, rx)
      | Ret None \<Rightarrow>
          (let avail = buf_size b - buf_len b;
               m = (if avail < CR_BUFFER_WATERMARK \<or> avail < more'
                    then cr_moremem H b (if 0 < more' then more' else 1) else (0, b))
           in if fst m \<noteq> 0 then Ret (Inl CREDIS_ERR_NOMEM, snd m, rx)
              else
                (let b1 = snd m;
                     r = cr_receivedata rx (buf_size b1 - buf_len b1);
                     rc = fst r
                 in if 0 < rc then
                      (let b2 = b1\<lparr>buf_data := blit (buf_data b1) (nat (buf_len b1)) (fst (snd r)),
                                   buf_len := buf_len b1 + rc\<rparr>;
                           more2 = c_int (c_int (c_int (buf_idx b2 + start) + 2) - buf_len b2)
                       in cr_readln_loop H b2 start (if more2 < 0 then 0 else more2) (snd (snd r)))
                    else if rc = 0 then Ret (Inl 0, b1, snd (snd r))
                    else Ret (Inl (- 1), b1, snd (snd r)))))"
  by pat_completeness auto
termination
  by (relation "measure (\<lambda>(H, b, start, more', rx). rx_weight rx)")
     (auto simp: cr_receivedata_weight)

declare cr_readln_loop.simps [simp del]

text \<open>
  \<open>cr_readln\<close> returns the return code, the connection, what is left of the script, and
  the values it stored through \<open>line\<close> and \<open>idx\<close> (\<open>None\<close> when it returned without storing).
\<close>

definition cr_readln ::
  "heap \<Rightarrow> cr_redis \<Rightarrow> int \<Rightarrow> rx_event list \<Rightarrow> (int \<times> cr_redis \<times> rx_event list \<times> (int \<times> int) option) exec"
where
  "cr_readln H s start rx =
     (let b = buf s;
          more0 = c_int (c_int (c_int (buf_idx b + start) + 2) - buf_len b)
      in case cr_readln_loop H b start (if more0 < 0 then 0 else more0) rx of
           Fault \<Rightarrow> Fault
         | Ret (Inl rc, b1, rx1) \<Rightarrow> Ret (rc, s\<lparr>buf := b1\<rparr>, rx1, None)
         | Ret (Inr nl, b1, rx1) \<Rightarrow>
             (let line = buf_idx b1;
                  b2 = b1\<lparr>buf_data := (buf_data b1)[nat nl := NUL], buf_idx := nl + 2\<rparr>
              in Ret (nl - line, s\<lparr>buf := b2\<rparr>, rx1, Some (line, line))))"

subsection \<open>atoi\<close>

text \<open>
  \<open>atoi\<close> of the C library: white space is skipped, one sign is accepted, the longest run of
  decimal digits is converted, anything after it is ignored, and no digits give 0. The result
  is \<open>(int) strtol(s, NULL, 10)\<close>: \<open>strtol\<close> saturates at the bounds of \<open>long\<close> (64 bits), and
  the conversion to \<open>int\<close> keeps the low 32 bits.
\<close>

definition isspace :: "char \<Rightarrow> bool" where
  "isspace c = (c = CHR '' '' \<or> c = CHR 0x09 \<or> c = CHR 0x0A \<or> c = CHR 0x0B \<or> c = CHR 0x0C \<or> c = CHR 0x0D)"

definition isdigit :: "char \<Rightarrow> bool" where
  "isdigit c = (48 \<le> (of_char c :: nat) \<and> (of_char c :: nat) \<le> 57)"

definition digit_val :: "char \<Rightarrow> int" where
  "digit_val c = int (of_char c) - 48"

definition dec_digits :: "string \<Rightarrow> int" where
  "dec_digits ds = foldl (\<lambda>a c. 10 * a + digit_val c) 0 ds"

definition strtol_sat :: "int \<Rightarrow> int" where
  "strtol_sat v = max (- (2 ^ 63)) (min (2 ^ 63 - 1) v)"

definition to_int32 :: "int \<Rightarrow> int" where
  "to_int32 v = signed_take_bit 31 v"

definition strip_sign :: "string \<Rightarrow> bool \<times> string" where
  "strip_sign s =
     (case s of
        [] \<Rightarrow> (False, [])
      | c # r \<Rightarrow> if c = CHR ''-'' then (True, r) else if c = CHR ''+'' then (False, r) else (False, s))"

definition strtol :: "string \<Rightarrow> int" where
  "strtol s =
     (let sg = strip_sign (dropWhile isspace s);
          v = dec_digits (takeWhile isdigit (snd sg))
      in strtol_sat (if fst sg then - v else v))"

definition atoi :: "string \<Rightarrow> int" where
  "atoi s = to_int32 (strtol s)"

subsection \<open>The reply decoder\<close>

text \<open>
  What a local \<open>line\<close> or \<open>idx\<close> holds after \<open>cr_readln\<close> was given its address: the value
  stored, or the old one when \<open>cr_readln\<close> returned without storing.
\<close>

definition stored_line :: "int \<Rightarrow> (int \<times> int) option \<Rightarrow> int" where
  "stored_line old out = (case out of None \<Rightarrow> old | Some (l, ix) \<Rightarrow> l)"

definition stored_idx :: "int \<Rightarrow> (int \<times> int) option \<Rightarrow> int" where
  "stored_idx old out = (case out of None \<Rightarrow> old | Some (l, ix) \<Rightarrow> ix)"

text \<open>
  \<open>cr_morebulk\<close> grows both arrays of the multibulk store (pointers of 8 bytes, \<open>int\<close>s of 4).
  The entries of fresh memory are never read before they are written; the model fills them
  with \<open>NULL\<close> and \<open>uninit\<close>. As in \<open>cr_moremem\<close>, a total outside of \<open>[0, INT_MAX]\<close> is a
  request that \<open>realloc\<close> refuses. When one of the two calls of \<open>realloc\<close> fails the code
  returns without storing the pointer that the other call returned; the model leaves the
  store as it was, and no caller reaches \<open>cr_morebulk\<close> (see C3).
\<close>

definition cr_morebulk :: "heap \<Rightarrow> cr_multibulk \<Rightarrow> int \<Rightarrow> int \<times> cr_multibulk" where
  "cr_morebulk H mb sz =
     (let n = (c_div sz CR_MULTIBULK_SIZE + 1) * CR_MULTIBULK_SIZE;
          tot = mb_size mb + n
      in if 0 \<le> tot \<and> tot \<le> INT_MAX \<and> can_alloc H (tot * 8) \<and> can_alloc H (tot * 4)
         then (0, mb\<lparr>mb_bulks := take (nat tot) (mb_bulks mb @ replicate (nat tot - length (mb_bulks mb)) None),
                     mb_idxs := take (nat tot) (mb_idxs mb @ replicate (nat tot - length (mb_idxs mb)) (uninit H)),
                     mb_size := tot\<rparr>)
         else (CREDIS_ERR_NOMEM, mb))"

definition set_idxs :: "cr_redis \<Rightarrow> int \<Rightarrow> int \<Rightarrow> cr_redis" where
  "set_idxs s i v =
     s\<lparr>reply := (reply s)\<lparr>reply_multibulk :=
        (reply_multibulk (reply s))\<lparr>mb_idxs := (mb_idxs (reply_multibulk (reply s)))[nat i := v]\<rparr>\<rparr>\<rparr>"

text \<open>
  The \<open>for\<close> loop of \<open>cr_receivemultibulk\<close>, with its locals \<open>i\<close>, \<open>bnum\<close>, \<open>line\<close> and \<open>idx\<close>.
  It ends with \<open>Some rc\<close> at a \<open>return\<close> inside the loop and with \<open>None\<close> when its condition
  fails.
\<close>

function cr_receivemultibulk_loop ::
  "heap \<Rightarrow> cr_redis \<Rightarrow> rx_event list \<Rightarrow> int \<Rightarrow> int \<Rightarrow> int \<Rightarrow> int \<Rightarrow>
   (int option \<times> cr_redis \<times> rx_event list \<times> int \<times> int) exec"
where
  "cr_receivemultibulk_loop H s rx i bnum line idx =
     (if 0 < bnum then
        (case cr_readln H s 0 rx of
           Fault \<Rightarrow> Fault
         | Ret (rc, s1, rx1, out) \<Rightarrow>
             if 0 < rc then
               (let line1 = stored_line line out
                in case peek (buf_data (buf s1)) line1 of
                     None \<Rightarrow> Fault
                   | Some c \<Rightarrow>
                       if c \<noteq> CR_BULK then Ret (Some CREDIS_ERR_PROTOCOL, s1, rx1, i, bnum)
                       else
                         (let blen = atoi (cstr (buf_data (buf s1)) (line1 + 1))
                          in if blen = - 1
                             then cr_receivemultibulk_loop H (set_idxs s1 i (- 1)) rx1 (i + 1) (bnum - 1) (line1 + 1) idx
                             else
                               (case cr_readln H s1 blen rx1 of
                                  Fault \<Rightarrow> Fault
                                | Ret (rc2, s2, rx2, out2) \<Rightarrow>
                                    if rc2 \<noteq> blen then Ret (Some CREDIS_ERR_PROTOCOL, s2, rx2, i, bnum)
                                    else
                                      (let idx2 = stored_idx idx out2
                                       in cr_receivemultibulk_loop H (set_idxs s2 i idx2) rx2 (i + 1) (bnum - 1)
                                            (stored_line (line1 + 1) out2) idx2))))
             else Ret (None, s1, rx1, i, bnum))
      else Ret (None, s, rx, i, bnum))"
  by pat_completeness auto
termination
  by (relation "measure (\<lambda>(H, s, rx, i, bnum, line, idx). nat bnum)") auto

declare cr_receivemultibulk_loop.simps [simp del]

definition cr_receivemultibulk ::
  "heap \<Rightarrow> cr_redis \<Rightarrow> int \<Rightarrow> rx_event list \<Rightarrow> (int \<times> cr_redis \<times> rx_event list) exec"
where
  "cr_receivemultibulk H s line rx =
     (let bnum = atoi (cstr (buf_data (buf s)) line);
          mb = reply_multibulk (reply s)
      in if bnum = - 1
         then Ret (0, s\<lparr>reply := (reply s)\<lparr>reply_multibulk := mb\<lparr>mb_len := 0\<rparr>\<rparr>\<rparr>, rx)
         else
           (let m = (if mb_size mb < bnum then cr_morebulk H mb (bnum - mb_size mb) else (0, mb))
            in if fst m \<noteq> 0 then Ret (CREDIS_ERR_NOMEM, s, rx)
               else
                 (case cr_receivemultibulk_loop H (s\<lparr>reply := (reply s)\<lparr>reply_multibulk := snd m\<rparr>\<rparr>)
                         rx 0 bnum line (uninit H) of
                    Fault \<Rightarrow> Fault
                  | Ret (Some rc, s1, rx1, i, bnum1) \<Rightarrow> Ret (rc, s1, rx1)
                  | Ret (None, s1, rx1, i, bnum1) \<Rightarrow>
                      if bnum1 \<noteq> 0 then Ret (CREDIS_ERR_PROTOCOL, s1, rx1)
                      else
                        (let mb1 = reply_multibulk (reply s1);
                             bulks = map (\<lambda>v. if 0 < v then Some v else None) (take (nat i) (mb_idxs mb1))
                                       @ drop (nat i) (mb_bulks mb1)
                         in Ret (0, s1\<lparr>reply := (reply s1)\<lparr>reply_multibulk := mb1\<lparr>mb_len := i, mb_bulks := bulks\<rparr>\<rparr>\<rparr>,
                                 rx1)))))"

text \<open>
  \<open>cr_receivebulk\<close> stores its local \<open>line\<close> in \<open>reply.bulk\<close> whenever \<open>cr_readln\<close> returns a
  value that is not negative. When \<open>cr_readln\<close> has stored a line, \<open>line\<close> points into the
  block that the buffer has now. When it returned 0 without storing (the peer closed the
  connection), \<open>line\<close> is still the argument, a pointer into the block that the buffer had
  when \<open>cr_receivebulk\<close> was called; \<open>cr_readln\<close> may have replaced that block.
\<close>

definition cr_receivebulk ::
  "heap \<Rightarrow> cr_redis \<Rightarrow> int \<Rightarrow> rx_event list \<Rightarrow> (int \<times> cr_redis \<times> rx_event list) exec"
where
  "cr_receivebulk H s line rx =
     (let blen = atoi (cstr (buf_data (buf s)) line)
      in if blen = - 1 then Ret (0, s\<lparr>reply := (reply s)\<lparr>reply_bulk := None\<rparr>\<rparr>, rx)
         else
           (case cr_readln H s blen rx of
              Fault \<Rightarrow> Fault
            | Ret (rc, s1, rx1, out) \<Rightarrow>
                if 0 \<le> rc
                then Ret (0, s1\<lparr>reply := (reply s1)\<lparr>reply_bulk := Some (stored_line line out),
                                                     reply_bulk_gen := (case out of None \<Rightarrow> buf_gen (buf s)
                                                                        | Some v \<Rightarrow> buf_gen (buf s1))\<rparr>\<rparr>, rx1)
                else Ret (CREDIS_ERR_PROTOCOL, s1, rx1)))"

definition cr_receiveinline :: "cr_redis \<Rightarrow> int \<Rightarrow> int \<times> cr_redis" where
  "cr_receiveinline s line = (0, s\<lparr>reply := (reply s)\<lparr>reply_line := Some line\<rparr>\<rparr>)"

definition cr_receiveint :: "cr_redis \<Rightarrow> int \<Rightarrow> int \<times> cr_redis" where
  "cr_receiveint s line =
     (0, s\<lparr>reply := (reply s)\<lparr>reply_integer := atoi (cstr (buf_data (buf s)) line)\<rparr>\<rparr>)"

definition cr_receiveerror :: "cr_redis \<Rightarrow> int \<Rightarrow> int \<times> cr_redis" where
  "cr_receiveerror s line = (CREDIS_ERR_PROTOCOL, s\<lparr>reply := (reply s)\<lparr>reply_line := Some line\<rparr>\<rparr>)"

definition cr_receivereply ::
  "heap \<Rightarrow> cr_redis \<Rightarrow> char \<Rightarrow> rx_event list \<Rightarrow> (int \<times> cr_redis \<times> rx_event list) exec"
where
  "cr_receivereply H s recvtype rx =
     (case cr_readln H (s\<lparr>buf := (buf s)\<lparr>buf_len := 0, buf_idx := 0\<rparr>\<rparr>) 0 rx of
        Fault \<Rightarrow> Fault
      | Ret (rc, s1, rx1, out) \<Rightarrow>
          if 0 < rc then
            (let line0 = stored_line (uninit H) out
             in case peek (buf_data (buf s1)) line0 of
                  None \<Rightarrow> Fault
                | Some prefix \<Rightarrow>
                    (let line = line0 + 1
                     in if prefix \<noteq> recvtype \<and> prefix \<noteq> CR_ERROR then Ret (CREDIS_ERR_PROTOCOL, s1, rx1)
                        else if prefix = CR_ERROR then Ret (fst (cr_receiveerror s1 line), snd (cr_receiveerror s1 line), rx1)
                        else if prefix = CR_INLINE then Ret (fst (cr_receiveinline s1 line), snd (cr_receiveinline s1 line), rx1)
                        else if prefix = CR_INT then Ret (fst (cr_receiveint s1 line), snd (cr_receiveint s1 line), rx1)
                        else if prefix = CR_BULK then cr_receivebulk H s1 line rx1
                        else if prefix = CR_MULTIBULK then cr_receivemultibulk H s1 line rx1
                        else Ret (CREDIS_ERR_RECV, s1, rx1)))
          else Ret (CREDIS_ERR_RECV, s1, rx1))"

definition credis_errorreply :: "cr_redis \<Rightarrow> int option" where
  "credis_errorreply s = reply_line (reply s)"

subsection \<open>Sending\<close>

text \<open>
  One event per round of the loop of \<open>cr_senddata\<close>: \<open>Sent n\<close>, the socket is writable and
  \<open>send\<close> takes \<open>n\<close> of the bytes offered (never more than were offered); \<open>SendErr\<close>, writable
  but \<open>send\<close> fails; \<open>TxTimeout\<close> and \<open>TxSelErr\<close>, the two other results of \<open>select\<close>. When
  the script is used up nothing more happens on the socket and \<open>select\<close> times out.
\<close>

datatype tx_event = Sent nat | SendErr | TxTimeout | TxSelErr

fun cr_senddata_loop :: "tx_event list \<Rightarrow> int \<Rightarrow> int \<Rightarrow> int" where
  "cr_senddata_loop [] sz sent = sent"
| "cr_senddata_loop (e # tx) sz sent =
     (if sent < sz then
        (case e of
           Sent n \<Rightarrow> cr_senddata_loop tx sz (sent + min (int n) (sz - sent))
         | SendErr \<Rightarrow> - 1
         | TxTimeout \<Rightarrow> sent
         | TxSelErr \<Rightarrow> - 1)
      else sent)"

definition cr_senddata :: "tx_event list \<Rightarrow> int \<Rightarrow> int" where
  "cr_senddata tx sz = cr_senddata_loop tx sz 0"

definition cr_sendandreceive ::
  "heap \<Rightarrow> cr_redis \<Rightarrow> char \<Rightarrow> tx_event list \<Rightarrow> rx_event list \<Rightarrow> (int \<times> cr_redis \<times> rx_event list) exec"
where
  "cr_sendandreceive H s recvtype tx rx =
     (let rc = cr_senddata tx (buf_len (buf s))
      in if rc \<noteq> buf_len (buf s)
         then (if rc < 0 then Ret (CREDIS_ERR_SEND, s, rx) else Ret (CREDIS_ERR_TIMEOUT, s, rx))
         else cr_receivereply H s recvtype rx)"

text \<open>
  \<open>vsnprintf\<close> stores at most \<open>sz - 1\<close> characters of the rendered text and a terminating
  zero, and returns the length of the whole text. The rendered text is an argument of the
  model (\<open>None\<close> when rendering fails).
\<close>

definition vsnprintf :: "char list \<Rightarrow> int \<Rightarrow> string \<Rightarrow> char list" where
  "vsnprintf mem sz text = (if 0 < sz then blit mem 0 (take (nat (sz - 1)) text @ [NUL]) else mem)"

definition cr_sendfandreceive ::
  "heap \<Rightarrow> cr_redis \<Rightarrow> char \<Rightarrow> string option \<Rightarrow> tx_event list \<Rightarrow> rx_event list \<Rightarrow>
   (int \<times> cr_redis \<times> rx_event list) exec"
where
  "cr_sendfandreceive H s recvtype fmt tx rx =
     (case fmt of
        None \<Rightarrow> Ret (- 1, s, rx)
      | Some text \<Rightarrow>
          (let b = buf s;
               rc = int (length text);
               b1 = b\<lparr>buf_data := vsnprintf (buf_data b) (buf_size b) text\<rparr>
           in if buf_size b1 \<le> rc then
                (let m = cr_moremem H b1 (rc - buf_size b1 + 1)
                 in if fst m \<noteq> 0 then Ret (CREDIS_ERR_NOMEM, s\<lparr>buf := snd m\<rparr>, rx)
                    else
                      (let b2 = snd m;
                           b3 = b2\<lparr>buf_data := vsnprintf (buf_data b2) (buf_size b2) text, buf_len := rc\<rparr>
                       in cr_sendandreceive H (s\<lparr>buf := b3\<rparr>) recvtype tx rx))
              else cr_sendandreceive H (s\<lparr>buf := b1\<lparr>buf_len := rc\<rparr>\<rparr>) recvtype tx rx))"

subsection \<open>Command wrappers\<close>

text \<open>\<open>%zu\<close>: a size in decimal.\<close>

fun dec_of_nat :: "nat \<Rightarrow> string" where
  "dec_of_nat n = (if n < 10 then [char_of (48 + n)] else dec_of_nat (n div 10) @ [char_of (48 + n mod 10)])"

definition credis_ping ::
  "heap \<Rightarrow> cr_redis \<Rightarrow> tx_event list \<Rightarrow> rx_event list \<Rightarrow> (int \<times> cr_redis \<times> rx_event list) exec"
where
  "credis_ping H s tx rx = cr_sendfandreceive H s CR_INLINE (Some (''PING'' @ CRLF)) tx rx"

definition cr_setaddrem ::
  "heap \<Rightarrow> cr_redis \<Rightarrow> string \<Rightarrow> string \<Rightarrow> string \<Rightarrow> tx_event list \<Rightarrow> rx_event list \<Rightarrow>
   (int \<times> cr_redis \<times> rx_event list) exec"
where
  "cr_setaddrem H s cmd key member tx rx =
     (case cr_sendfandreceive H s CR_INT
             (Some (cmd @ '' '' @ key @ '' '' @ dec_of_nat (length member) @ CRLF @ member @ CRLF)) tx rx of
        Fault \<Rightarrow> Fault
      | Ret (rc, s1, rx1) \<Rightarrow>
          Ret (if rc = 0 \<and> reply_integer (reply s1) = 0 then - 1 else rc, s1, rx1))"

text \<open>
  \<open>credis_zadd\<close> renders its \<open>double\<close> score with \<open>%f\<close>; the rendered score is an argument
  of the model.
\<close>

definition credis_zadd ::
  "heap \<Rightarrow> cr_redis \<Rightarrow> string \<Rightarrow> string \<Rightarrow> string \<Rightarrow> tx_event list \<Rightarrow> rx_event list \<Rightarrow>
   (int \<times> cr_redis \<times> rx_event list) exec"
where
  "credis_zadd H s key score member tx rx =
     (case cr_sendfandreceive H s CR_INT
             (Some (''ZADD '' @ key @ '' '' @ score @ '' '' @ dec_of_nat (length member) @ CRLF @ member @ CRLF))
             tx rx of
        Fault \<Rightarrow> Fault
      | Ret (rc, s1, rx1) \<Rightarrow>
          Ret (if rc = 0 \<and> reply_integer (reply s1) = 0 then - 1 else rc, s1, rx1))"

definition credis_sadd ::
  "heap \<Rightarrow> cr_redis \<Rightarrow> string \<Rightarrow> string \<Rightarrow> tx_event list \<Rightarrow> rx_event list \<Rightarrow>
   (int \<times> cr_redis \<times> rx_event list) exec"
where
  "credis_sadd H s key member tx rx = cr_setaddrem H s ''SADD'' key member tx rx"

subsection \<open>credis_connect\<close>

text \<open>
  The five memory blocks of a connection: the object itself, the address text, the buffer
  and the two arrays of the multibulk store.
\<close>

datatype block = Blk_handle | Blk_ip | Blk_data | Blk_bulks | Blk_idxs

text \<open>
  \<open>cr_delete\<close> reads the four pointers through \<open>rhnd\<close> before it tests \<open>rhnd\<close> itself: called
  with \<open>NULL\<close> it dereferences \<open>NULL\<close>. Otherwise it frees the blocks whose pointers are set,
  in this order. \<open>live\<close> are the blocks that have been allocated; the result are the blocks
  freed.
\<close>

definition cr_delete :: "block list \<Rightarrow> block list exec" where
  "cr_delete live =
     (if Blk_handle \<in> set live
      then Ret (filter (\<lambda>k. k \<in> set live) [Blk_bulks, Blk_idxs, Blk_data, Blk_ip, Blk_handle])
      else Fault)"

text \<open>
  \<open>cr_new\<close>: the connection object is zeroed by \<open>calloc\<close> (112 bytes where pointers have 8);
  the address text, the buffer and the two multibulk arrays come from \<open>malloc\<close>. The first
  allocation that fails ends the chain, and \<open>cr_delete\<close> is called with what there is: with
  \<open>NULL\<close> when it was \<open>calloc\<close> that failed. The result is the handle (\<open>None\<close> for \<open>NULL\<close>) and
  the blocks freed.
\<close>

definition cr_new :: "heap \<Rightarrow> (cr_redis option \<times> block list) exec" where
  "cr_new H =
     (let live = (if \<not> can_alloc H 112 then []
                  else if \<not> can_alloc H 32 then [Blk_handle]
                  else if \<not> can_alloc H CR_BUFFER_SIZE then [Blk_handle, Blk_ip]
                  else if \<not> can_alloc H (8 * CR_MULTIBULK_SIZE) then [Blk_handle, Blk_ip, Blk_data]
                  else if \<not> can_alloc H (4 * CR_MULTIBULK_SIZE) then [Blk_handle, Blk_ip, Blk_data, Blk_bulks]
                  else [Blk_handle, Blk_ip, Blk_data, Blk_bulks, Blk_idxs])
      in if length live < 5
         then (case cr_delete live of Fault \<Rightarrow> Fault | Ret gone \<Rightarrow> Ret (None, gone))
         else Ret (Some \<lparr>version_major = 0, version_minor = 0, version_patch = 0, fd = 0, ip = [], port = 0,
                 timeout = 0,
                 buf = \<lparr>buf_data = map (fresh H) [0 ..< nat CR_BUFFER_SIZE], buf_idx = 0, buf_len = 0,
                         buf_size = CR_BUFFER_SIZE, buf_gen = 0\<rparr>,
                 reply = \<lparr>reply_integer = 0, reply_line = None, reply_bulk = None, reply_bulk_gen = 0,
                           reply_multibulk = \<lparr>mb_bulks = replicate (nat CR_MULTIBULK_SIZE) None,
                                               mb_idxs = replicate (nat CR_MULTIBULK_SIZE) (uninit H),
                                               mb_size = CR_MULTIBULK_SIZE, mb_len = 0\<rparr>\<rparr>,
                 error = 0\<rparr>, []))"

text \<open>
  \<open>strsep\<close> with the delimiters \<open>"\r\n"\<close>: every carriage return and every line feed ends a
  token, so that a CRLF pair leaves an empty token between its two bytes.
\<close>

fun strsep_all :: "string \<Rightarrow> string list" where
  "strsep_all [] = [[]]"
| "strsep_all (c # cs) =
     (if c = CR \<or> c = LF then [] # strsep_all cs
      else (case strsep_all cs of [] \<Rightarrow> [[c]] | tok # toks \<Rightarrow> (c # tok) # toks))"

text \<open>
  The conversion \<open>%d\<close> of \<open>sscanf\<close>: white space is skipped, one sign is accepted, and at
  least one digit is required. It yields the value and the rest of the input.
\<close>

definition scan_d :: "string \<Rightarrow> (int \<times> string) option" where
  "scan_d inp =
     (let sg = strip_sign (dropWhile isspace inp);
          ds = takeWhile isdigit (snd sg);
          v = dec_digits ds
      in if ds = [] then None
         else Some (to_int32 (strtol_sat (if fst sg then - v else v)), dropWhile isdigit (snd sg)))"

text \<open>
  \<open>sscanf(token, "redis_version:%d.%d.%d\r\n", &major, &minor, &patch)\<close>. The first
  component of the result is what \<open>sscanf\<close> returns: the number of conversions stored, or
  \<open>EOF\<close> (\<open>-1\<close>) when the input ends before the first conversion. The other three are the
  values converted (0 stands where nothing was converted). The white space that ends the
  format matches any white space, also none.
\<close>

definition sscanf_version :: "string \<Rightarrow> int \<times> int \<times> int \<times> int" where
  "sscanf_version tok =
     (let lit = ''redis_version:'';
          n = length lit
      in if length tok < n \<and> take (length tok) lit = tok then (- 1, 0, 0, 0)
         else if take n tok \<noteq> lit then (0, 0, 0, 0)
         else if dropWhile isspace (drop n tok) = [] then (- 1, 0, 0, 0)
         else
           (case scan_d (drop n tok) of
              None \<Rightarrow> (0, 0, 0, 0)
            | Some (a, r1) \<Rightarrow>
                (case r1 of
                   [] \<Rightarrow> (1, a, 0, 0)
                 | c1 # r1' \<Rightarrow>
                     if c1 \<noteq> CHR ''.'' then (1, a, 0, 0)
                     else
                       (case scan_d r1' of
                          None \<Rightarrow> (1, a, 0, 0)
                        | Some (b, r2) \<Rightarrow>
                            (case r2 of
                               [] \<Rightarrow> (2, a, b, 0)
                             | c2 # r2' \<Rightarrow>
                                 if c2 \<noteq> CHR ''.'' then (2, a, b, 0)
                                 else
                                   (case scan_d r2' of
                                      None \<Rightarrow> (2, a, b, 0)
                                    | Some (c, r3) \<Rightarrow> (3, a, b, c)))))))"

text \<open>The stores of \<open>sscanf\<close> through its three pointers, one per conversion.\<close>

definition store_version :: "cr_redis \<Rightarrow> int \<times> int \<times> int \<times> int \<Rightarrow> cr_redis" where
  "store_version s r =
     (case r of (items, a, b, c) \<Rightarrow>
        if items < 1 then s
        else if items = 1 then s\<lparr>version_major := a\<rparr>
        else if items = 2 then s\<lparr>version_major := a, version_minor := b\<rparr>
        else s\<lparr>version_major := a, version_minor := b, version_patch := c\<rparr>)"

text \<open>
  The tokens that the loop of \<open>credis_connect\<close> gets from the copy that \<open>strdup\<close> makes of
  the bulk payload. When \<open>strdup\<close> fails the copy is \<open>NULL\<close> and \<open>strsep\<close> yields no token.
\<close>

definition strdup_tokens :: "heap \<Rightarrow> string \<Rightarrow> string list" where
  "strdup_tokens H str = (if can_alloc H (int (length str) + 1) then strsep_all str else [])"

text \<open>The \<open>while\<close> loop of \<open>credis_connect\<close> over the tokens.\<close>

fun scan_version :: "string list \<Rightarrow> int \<Rightarrow> cr_redis \<Rightarrow> int \<times> cr_redis" where
  "scan_version [] items s = (items, s)"
| "scan_version (tok # toks) items s =
     (if items < 2 then scan_version toks (fst (sscanf_version tok)) (store_version s (sscanf_version tok))
      else (items, s))"

text \<open>
  Creating the socket, setting its options, resolving the host and connecting within the
  timeout are outside of the model. \<open>net\<close> is their result: \<open>NetOk fd ip\<close>, connected on the
  descriptor \<open>fd\<close> to the address \<open>ip\<close>; or \<open>NetFail fd\<close>, one of the steps failed, and \<open>fd\<close> is
  what the local \<open>fd\<close> holds at the label \<open>error\<close> (\<open>-1\<close> when it was \<open>socket\<close> that failed, the
  descriptor otherwise).
\<close>

datatype net_result = NetFail int | NetOk int string

text \<open>
  The label \<open>error\<close> of \<open>credis_connect\<close>: the descriptor is closed when it is positive, and
  \<open>cr_delete\<close> frees the connection, all of whose blocks are allocated at this point. The
  result of \<open>credis_connect\<close> is the handle (\<open>None\<close> for \<open>NULL\<close>), the descriptors closed and
  the blocks freed.
\<close>

definition connect_error :: "int \<Rightarrow> (cr_redis option \<times> int list \<times> block list) exec" where
  "connect_error fd0 =
     (case cr_delete [Blk_handle, Blk_ip, Blk_data, Blk_bulks, Blk_idxs] of
        Fault \<Rightarrow> Fault
      | Ret gone \<Rightarrow> Ret (None, (if 0 < fd0 then [fd0] else []), gone))"

text \<open>
  \<open>credis_connect\<close>. \<open>strdup\<close> reads the text that \<open>reply.bulk\<close> points to: a \<open>NULL\<close> bulk (the
  reply \<open>$-1\<close>) and a bulk that points into a block which the buffer has given up are
  undefined behaviour. The copy that \<open>strdup\<close> makes is never freed, on no path; it is not
  one of the blocks of the connection.
\<close>

definition credis_connect ::
  "heap \<Rightarrow> net_result \<Rightarrow> int \<Rightarrow> int \<Rightarrow> tx_event list \<Rightarrow> rx_event list \<Rightarrow>
   (cr_redis option \<times> int list \<times> block list) exec"
where
  "credis_connect H net port0 timeout0 tx rx =
     (case cr_new H of
        Fault \<Rightarrow> Fault
      | Ret (None, gone) \<Rightarrow> Ret (None, [], gone)
      | Ret (Some rhnd, gone) \<Rightarrow>
          (case net of
             NetFail fd0 \<Rightarrow> connect_error fd0
           | NetOk fd0 ip0 \<Rightarrow>
               (let s0 = rhnd\<lparr>ip := ip0, port := (if port0 = 0 then 6379 else port0), fd := fd0,
                              timeout := timeout0\<rparr>
                in case cr_sendfandreceive H s0 CR_BULK (Some (''INFO'' @ CRLF)) tx rx of
                     Fault \<Rightarrow> Fault
                   | Ret (rc, s1, rx1) \<Rightarrow>
                       if rc = 0 then
                         (case reply_bulk (reply s1) of
                            None \<Rightarrow> Fault
                          | Some bulk \<Rightarrow>
                              if reply_bulk_gen (reply s1) \<noteq> buf_gen (buf s1) then Fault
                              else
                                (let r = scan_version (strdup_tokens H (cstr (buf_data (buf s1)) bulk)) 0 s1;
                                     items = fst r;
                                     s2 = snd r
                                 in if items < 2 then connect_error fd0
                                    else if items = 2
                                    then Ret (Some (s2\<lparr>version_patch := version_minor s2, version_minor := 0\<rparr>),
                                              [], [])
                                    else Ret (Some s2, [], [])))
                       else Ret (Some s1, [], []))))"

subsection \<open>The growth formula of the specification\<close>

text \<open>
  The specification states the growth of the buffer with a rounded-up quotient,
  \<open>ceil(extra_bytes / INCREMENT)\<close>.
\<close>

definition ceil_div :: "int \<Rightarrow> int \<Rightarrow> int" where
  "ceil_div a b = (a + b - 1) div b"

subsection \<open>The buffer invariant of the specification\<close>

text \<open>
  The invariant that the specification states for the buffer, and the consistency of the
  model's memory block with the capacity, an \<open>int\<close>.
\<close>

definition buf_inv :: "cr_buffer \<Rightarrow> bool" where
  "buf_inv b = (0 \<le> buf_idx b \<and> buf_idx b \<le> buf_len b \<and> buf_len b \<le> buf_size b)"

definition block_ok :: "cr_buffer \<Rightarrow> bool" where
  "block_ok b = (int (length (buf_data b)) = buf_size b \<and> 0 \<le> buf_len b \<and> buf_len b \<le> buf_size b
                 \<and> buf_size b \<le> INT_MAX)"

subsection \<open>The value of a decimal numeral\<close>

text \<open>
  The base-10 value of a string of digits, most significant digit first, as the
  specification means it for the text of an integer reply.
\<close>

fun decimal_value :: "string \<Rightarrow> int" where
  "decimal_value [] = 0"
| "decimal_value (c # cs) = digit_val c * 10 ^ length cs + decimal_value cs"

text \<open>
  The numeral that a text starts with: \<open>leading_numeral t ws sg ds rest\<close> splits the text \<open>t\<close>
  into white space \<open>ws\<close>, an optional sign \<open>sg\<close>, the digits \<open>ds\<close> and the rest. The digits are
  the longest run there is, and where there is neither a sign nor a digit the rest does not
  start with one, nor with white space: a text has one such split.
\<close>

definition leading_numeral :: "string \<Rightarrow> string \<Rightarrow> string \<Rightarrow> string \<Rightarrow> string \<Rightarrow> bool" where
  "leading_numeral t ws sg ds rest =
     (t = ws @ sg @ ds @ rest
      \<and> (\<forall>c\<in>set ws. isspace c)
      \<and> (sg = [] \<or> sg = ''-'' \<or> sg = ''+'')
      \<and> (\<forall>c\<in>set ds. isdigit c)
      \<and> (rest = [] \<or> \<not> isdigit (hd rest))
      \<and> (sg = [] \<and> ds = [] \<longrightarrow>
            rest = [] \<or> (\<not> isspace (hd rest) \<and> hd rest \<noteq> CHR ''-'' \<and> hd rest \<noteq> CHR ''+'')))"

subsection \<open>A parseable version field\<close>


subsection \<open>Concrete machines and connections for the examples\<close>

text \<open>An allocator that never fails and hands out zeroed memory.\<close>

definition H_zero :: heap where
  "H_zero = \<lparr>can_alloc = (\<lambda>n. True), fresh = (\<lambda>i. NUL), uninit = 0\<rparr>"

text \<open>The same machine, where an uninitialised local happens to hold 77.\<close>

definition H_junk :: heap where
  "H_junk = \<lparr>can_alloc = (\<lambda>n. True), fresh = (\<lambda>i. NUL), uninit = 77\<rparr>"

text \<open>A buffer of the initial capacity that is filled to the last byte.\<close>

definition buf_full :: cr_buffer where
  "buf_full = \<lparr>buf_data = replicate 4096 (CHR ''x''), buf_idx = 0, buf_len = 4096, buf_size = 4096,
                buf_gen = 0\<rparr>"

text \<open>
  A connection as \<open>cr_new\<close> and the first lines of \<open>credis_connect\<close> leave it on the machine
  \<open>H_zero\<close>: the buffer and the multibulk store have their initial capacities.
\<close>

definition conn0 :: cr_redis where
  "conn0 = \<lparr>version_major = 0, version_minor = 0, version_patch = 0, fd = 3, ip = ''127.0.0.1'', port = 6379,
            timeout = 1000,
            buf = \<lparr>buf_data = replicate 4096 NUL, buf_idx = 0, buf_len = 0, buf_size = 4096, buf_gen = 0\<rparr>,
            reply = \<lparr>reply_integer = 0, reply_line = None, reply_bulk = None, reply_bulk_gen = 0,
                      reply_multibulk = \<lparr>mb_bulks = replicate 256 None, mb_idxs = replicate 256 0,
                                          mb_size = 256, mb_len = 0\<rparr>\<rparr>,
            error = 0\<rparr>"

text \<open>The same connection after \<open>vsnprintf\<close> has rendered \<open>PING\<close> into the buffer.\<close>

definition conn_ping :: cr_redis where
  "conn_ping = conn0\<lparr>buf := \<lparr>buf_data = ''PING'' @ [CR, LF, NUL] @ replicate 4089 NUL, buf_idx = 0, buf_len = 6,
                                buf_size = 4096, buf_gen = 0\<rparr>\<rparr>"

text \<open>Projections of a result of the engine.\<close>

definition ret_code :: "(int \<times> cr_redis \<times> rx_event list) exec \<Rightarrow> int option" where
  "ret_code r = (case r of Fault \<Rightarrow> None | Ret (rc, s, rx) \<Rightarrow> Some rc)"

definition ret_integer :: "(int \<times> cr_redis \<times> rx_event list) exec \<Rightarrow> int option" where
  "ret_integer r = (case r of Fault \<Rightarrow> None | Ret (rc, s, rx) \<Rightarrow> Some (reply_integer (reply s)))"


definition ret_bulk :: "(int \<times> cr_redis \<times> rx_event list) exec \<Rightarrow> string option" where
  "ret_bulk r =
     (case r of
        Fault \<Rightarrow> None
      | Ret (rc, s, rx) \<Rightarrow>
          (case reply_bulk (reply s) of
             None \<Rightarrow> None
           | Some p \<Rightarrow> if reply_bulk_gen (reply s) = buf_gen (buf s) then Some (cstr (buf_data (buf s)) p) else None))"

definition ret_multibulk :: "(int \<times> cr_redis \<times> rx_event list) exec \<Rightarrow> (int \<times> int option list) option" where
  "ret_multibulk r =
     (case r of
        Fault \<Rightarrow> None
      | Ret (rc, s, rx) \<Rightarrow>
          Some (mb_len (reply_multibulk (reply s)),
                take (nat (mb_len (reply_multibulk (reply s)))) (mb_bulks (reply_multibulk (reply s)))))"

definition ret_cursor :: "(int \<times> cr_redis \<times> rx_event list) exec \<Rightarrow> (int \<times> int \<times> int) option" where
  "ret_cursor r =
     (case r of
        Fault \<Rightarrow> None
      | Ret (rc, s, rx) \<Rightarrow> Some (buf_idx (buf s), buf_len (buf s), buf_size (buf s)))"

definition readln_view ::
  "(int \<times> cr_redis \<times> rx_event list \<times> (int \<times> int) option) exec \<Rightarrow> (int \<times> string \<times> int) option" where
  "readln_view r =
     (case r of
        Fault \<Rightarrow> None
      | Ret (rc, s, rx, out) \<Rightarrow>
          (case out of
             None \<Rightarrow> None
           | Some (line, ix) \<Rightarrow> Some (rc, cstr (buf_data (buf s)) line, buf_idx (buf s))))"

definition ret_rx :: "(int \<times> cr_redis \<times> rx_event list) exec \<Rightarrow> rx_event list option" where
  "ret_rx r = (case r of Fault \<Rightarrow> None | Ret (rc, s, rx) \<Rightarrow> Some rx)"

definition ret_elements :: "(int \<times> cr_redis \<times> rx_event list) exec \<Rightarrow> string option list option" where
  "ret_elements r =
     (case r of
        Fault \<Rightarrow> None
      | Ret (rc, s, rx) \<Rightarrow>
          Some (map (map_option (cstr (buf_data (buf s))))
                  (take (nat (mb_len (reply_multibulk (reply s)))) (mb_bulks (reply_multibulk (reply s))))))"

definition ret_conn :: "(int \<times> cr_redis \<times> rx_event list) exec \<Rightarrow> cr_redis option" where
  "ret_conn r = (case r of Fault \<Rightarrow> None | Ret (rc, s, rx) \<Rightarrow> Some s)"

text \<open>
  The connection \<open>conn0\<close> after \<open>cr_readln\<close> has read the line \<open>ln\<close> and its CRLF into the
  empty buffer.
\<close>

definition conn_line :: "string \<Rightarrow> cr_redis" where
  "conn_line ln = conn0\<lparr>buf := \<lparr>buf_data = ln @ [NUL, LF] @ replicate (4094 - length ln) NUL,
                                 buf_idx = int (length ln) + 2, buf_len = int (length ln) + 2, buf_size = 4096,
                                 buf_gen = 0\<rparr>\<rparr>"

section \<open>Properties\<close>

subsection \<open>Unfolding the model on concrete input\<close>

lemmas consts_ev = CREDIS_OK_def CREDIS_ERR_NOMEM_def CREDIS_ERR_SEND_def CREDIS_ERR_RECV_def
  CREDIS_ERR_TIMEOUT_def CREDIS_ERR_PROTOCOL_def CR_ERROR_def CR_INLINE_def CR_BULK_def CR_MULTIBULK_def
  CR_INT_def CR_BUFFER_SIZE_def CR_BUFFER_WATERMARK_def CR_MULTIBULK_SIZE_def CR_def LF_def NUL_def CRLF_def

lemmas readln_ev = cr_readln_def cr_readln_loop.simps cr_findnl.simps peek_def blit_def cr_moremem_def
  realloc_def c_int_def INT_MAX_def Let_def nth_append

lemmas atoi_ev = atoi_def strtol_def strip_sign_def dec_digits_def digit_val_def isdigit_def isspace_def
  strtol_sat_def to_int32_def cstr_def

lemmas reply_ev = cr_receivereply_def cr_receiveerror_def cr_receiveinline_def cr_receiveint_def
  cr_receivebulk_def cr_receivemultibulk_def cr_receivemultibulk_loop.simps cr_morebulk_def set_idxs_def
  stored_line_def stored_idx_def

lemmas send_ev = cr_sendfandreceive_def cr_sendandreceive_def cr_senddata_def vsnprintf_def

lemma cr_new_H_zero: "cr_new H_zero = Ret (Some (conn0\<lparr>fd := 0, ip := [], port := 0, timeout := 0\<rparr>), [])"
  by (simp add: cr_new_def H_zero_def conn0_def CR_BUFFER_SIZE_def CR_MULTIBULK_SIZE_def map_replicate_const
        del: upt_rec_numeral)

subsection \<open>Arithmetic and memory helpers\<close>

lemma c_div_nonneg: "0 \<le> a \<Longrightarrow> 0 < b \<Longrightarrow> c_div a b = a div b"
  by (simp add: c_div_def)

lemma c_int_id: "- 2147483648 \<le> v \<Longrightarrow> v \<le> 2147483647 \<Longrightarrow> c_int v = v"
  by (simp add: c_int_def mod_pos_pos_trivial)

text \<open>
  The total of \<open>cr_moremem\<close>, for a capacity and a request in the range of \<open>int\<close>: the \<open>int\<close>
  that the C code computes is negative exactly when the exact total is outside of
  \<open>[0, INT_MAX]\<close>, and it is the exact total otherwise.
\<close>

lemma c_int_above: "2147483648 \<le> v \<Longrightarrow> v < 6442450944 \<Longrightarrow> c_int v = v - 4294967296"
proof -
  assume a: "2147483648 \<le> v" "v < 6442450944"
  have "(v + 2147483648) mod 4294967296 = (v + 2147483648 - 4294967296) mod 4294967296"
    by (simp only: minus_mod_self2)
  also have "\<dots> = v + 2147483648 - 4294967296"
    using a by (intro mod_pos_pos_trivial) simp_all
  finally show ?thesis by (simp add: c_int_def)
qed

lemma c_div_bounds:
  assumes "- 2147483648 \<le> sz" and "sz \<le> 2147483647"
  shows "- 524288 \<le> c_div sz CR_BUFFER_SIZE" and "c_div sz CR_BUFFER_SIZE \<le> 524287"
proof -
  define q where "q = \<bar>sz\<bar> div 4096"
  have a: "\<bar>sz\<bar> \<le> 2147483648" using assms by simp
  have "\<bar>sz\<bar> div 4096 \<le> 2147483648 div 4096"
    using a by (intro zdiv_mono1) simp_all
  then have up: "q \<le> 524288" by (simp add: q_def)
  have lo: "0 \<le> q" by (simp add: q_def pos_imp_zdiv_nonneg_iff)
  have cd: "c_div sz CR_BUFFER_SIZE = (if sz < 0 then - q else q)"
    by (simp add: c_div_def CR_BUFFER_SIZE_def q_def)
  show "- 524288 \<le> c_div sz CR_BUFFER_SIZE"
    using up lo by (simp add: cd)
  have "q \<le> 524287" if "\<not> sz < 0"
  proof -
    have "\<bar>sz\<bar> \<le> 2147483647" using that assms by simp
    then have "\<bar>sz\<bar> div 4096 \<le> 2147483647 div 4096"
      by (intro zdiv_mono1) simp_all
    then show ?thesis by (simp add: q_def)
  qed
  then show "c_div sz CR_BUFFER_SIZE \<le> 524287"
    using lo by (simp add: cd)
qed

lemma cr_moremem_total:
  assumes "0 \<le> sz0" and "sz0 \<le> INT_MAX" and "- 2147483648 \<le> sz" and "sz \<le> INT_MAX"
  shows "(sz0 + (c_div sz CR_BUFFER_SIZE + 1) * CR_BUFFER_SIZE < 0
            \<or> INT_MAX < sz0 + (c_div sz CR_BUFFER_SIZE + 1) * CR_BUFFER_SIZE)
         = (c_int (sz0 + c_int (c_int (c_div sz CR_BUFFER_SIZE + 1) * CR_BUFFER_SIZE)) < 0)"
    and "\<not> (sz0 + (c_div sz CR_BUFFER_SIZE + 1) * CR_BUFFER_SIZE < 0
            \<or> INT_MAX < sz0 + (c_div sz CR_BUFFER_SIZE + 1) * CR_BUFFER_SIZE) \<Longrightarrow>
         c_int (sz0 + c_int (c_int (c_div sz CR_BUFFER_SIZE + 1) * CR_BUFFER_SIZE))
           = sz0 + (c_div sz CR_BUFFER_SIZE + 1) * CR_BUFFER_SIZE"
proof -
  define n where "n = c_div sz CR_BUFFER_SIZE + 1"
  have n: "- 524287 \<le> n" "n \<le> 524288"
    using c_div_bounds [of sz] assms(3,4) by (simp_all add: n_def INT_MAX_def)
  have cn: "c_int n = n"
    using n by (intro c_int_id) simp_all
  have both: "((sz0 + n * 4096 < 0 \<or> 2147483647 < sz0 + n * 4096) = (c_int (sz0 + c_int (n * 4096)) < 0))
      \<and> (\<not> (sz0 + n * 4096 < 0 \<or> 2147483647 < sz0 + n * 4096) \<longrightarrow> c_int (sz0 + c_int (n * 4096)) = sz0 + n * 4096)"
  proof (cases "n = 524288")
    case True
    have "c_int (n * 4096) = - 2147483648"
      using True c_int_above [of "n * 4096"] by simp
    moreover have "c_int (sz0 - 2147483648) = sz0 - 2147483648"
      using assms(1,2) by (intro c_int_id) (simp_all add: INT_MAX_def)
    ultimately show ?thesis
      using True assms(1,2) by (simp add: INT_MAX_def)
  next
    case False
    then have le: "n * 4096 \<le> 2147479552" "- 2147479552 \<le> n * 4096"
      using n by simp_all
    have c1: "c_int (n * 4096) = n * 4096"
      using le by (intro c_int_id) simp_all
    show ?thesis
    proof (cases "2147483647 < sz0 + n * 4096")
      case True
      have "c_int (sz0 + n * 4096) = sz0 + n * 4096 - 4294967296"
        using True le assms(1,2) by (intro c_int_above) (simp_all add: INT_MAX_def)
      then show ?thesis
        using True le assms(1,2) by (simp add: c1 INT_MAX_def)
    next
      case False
      have "c_int (sz0 + n * 4096) = sz0 + n * 4096"
        using False le assms(1,2) by (intro c_int_id) (simp_all add: INT_MAX_def)
      then show ?thesis
        using False by (simp add: c1)
    qed
  qed
  show "(sz0 + (c_div sz CR_BUFFER_SIZE + 1) * CR_BUFFER_SIZE < 0
            \<or> INT_MAX < sz0 + (c_div sz CR_BUFFER_SIZE + 1) * CR_BUFFER_SIZE)
         = (c_int (sz0 + c_int (c_int (c_div sz CR_BUFFER_SIZE + 1) * CR_BUFFER_SIZE)) < 0)"
    unfolding CR_BUFFER_SIZE_def INT_MAX_def cn [unfolded n_def CR_BUFFER_SIZE_def]
    using both [unfolded n_def CR_BUFFER_SIZE_def] by blast
  show "c_int (sz0 + c_int (c_int (c_div sz CR_BUFFER_SIZE + 1) * CR_BUFFER_SIZE))
           = sz0 + (c_div sz CR_BUFFER_SIZE + 1) * CR_BUFFER_SIZE"
    if "\<not> (sz0 + (c_div sz CR_BUFFER_SIZE + 1) * CR_BUFFER_SIZE < 0
            \<or> INT_MAX < sz0 + (c_div sz CR_BUFFER_SIZE + 1) * CR_BUFFER_SIZE)"
    using that unfolding CR_BUFFER_SIZE_def INT_MAX_def cn [unfolded n_def CR_BUFFER_SIZE_def]
    using both [unfolded n_def CR_BUFFER_SIZE_def] by blast
qed

lemma ceil_div_not_dvd:
  assumes "0 < b" and "\<not> b dvd a"
  shows "ceil_div a b = a div b + 1"
proof -
  have "0 \<le> a mod b" and "a mod b \<noteq> 0" and "a mod b < b"
    using assms by (simp_all add: dvd_eq_mod_eq_0)
  then have m: "0 < a mod b" "a mod b < b"
    by simp_all
  have "a + b - 1 = (a mod b - 1) + (a div b + 1) * b"
    by (simp add: algebra_simps)
  then have "(a + b - 1) div b = ((a mod b - 1) + (a div b + 1) * b) div b"
    by (simp only:)
  also have "\<dots> = (a div b + 1) + (a mod b - 1) div b"
    using assms(1) by (subst div_mult_self1) simp_all
  finally have "(a + b - 1) div b = (a div b + 1) + (a mod b - 1) div b" .
  moreover have "(a mod b - 1) div b = 0"
    using m by (simp add: div_pos_pos_trivial)
  ultimately show ?thesis by (simp add: ceil_div_def)
qed

lemma realloc_keeps:
  assumes "realloc H mem tot = Some mem'" and "int (length mem) \<le> tot"
  shows "take (length mem) mem' = mem" and "int (length mem') = tot"
  using assms by (auto simp: realloc_def split: if_splits)

lemma cr_moremem_H_zero:
  "0 \<le> buf_size b + (c_div sz CR_BUFFER_SIZE + 1) * CR_BUFFER_SIZE \<Longrightarrow>
   buf_size b + (c_div sz CR_BUFFER_SIZE + 1) * CR_BUFFER_SIZE \<le> INT_MAX \<Longrightarrow>
   cr_moremem H_zero b sz =
    (0, b\<lparr>buf_data := the (realloc H_zero (buf_data b) (buf_size b + (c_div sz CR_BUFFER_SIZE + 1) * CR_BUFFER_SIZE)),
          buf_size := buf_size b + (c_div sz CR_BUFFER_SIZE + 1) * CR_BUFFER_SIZE,
          buf_gen := Suc (buf_gen b)\<rparr>)"
  by (simp add: cr_moremem_def Let_def realloc_def H_zero_def)

subsection \<open>C6: growth of the buffer\<close>

text \<open>
  C6, as stated: a successful growth by \<open>extra_bytes\<close> adds exactly
  \<open>ceil(extra_bytes / 4096) * 4096\<close> bytes of capacity. This fails when \<open>extra_bytes\<close> is a
  multiple of 4096: \<open>cr_moremem\<close> computes \<open>extra_bytes / 4096 + 1\<close> increments. A full buffer
  of 4096 bytes asked for 4096 more grows to 12288 bytes, where the stated formula gives 8192.
\<close>

theorem cr_moremem_ceil_counterexample:
  "fst (cr_moremem H_zero buf_full 4096) = 0 \<and>
   buf_size (snd (cr_moremem H_zero buf_full 4096)) = 12288 \<and>
   buf_size buf_full + ceil_div 4096 CR_BUFFER_SIZE * CR_BUFFER_SIZE = 8192"
  by (simp add: cr_moremem_H_zero buf_full_def c_div_def ceil_div_def CR_BUFFER_SIZE_def INT_MAX_def)

text \<open>
  C6, amended: for every successful growth requesting \<open>extra \<ge> 0\<close> more bytes, the new
  capacity is the old capacity plus \<open>(extra div 4096 + 1) * 4096\<close>; this is the rounded-up
  formula of the specification whenever \<open>extra\<close> is not a multiple of 4096. The whole old
  block, and with it the filled bytes \<open>[0, len)\<close>, is unchanged, and so are \<open>len\<close> and \<open>idx\<close>.
\<close>

theorem cr_moremem_growth:
  assumes ok: "fst (cr_moremem H b extra) = 0"
    and extra: "0 \<le> extra"
    and block: "int (length (buf_data b)) = buf_size b"
  shows "buf_size (snd (cr_moremem H b extra)) = buf_size b + (extra div CR_BUFFER_SIZE + 1) * CR_BUFFER_SIZE
       \<and> (\<not> CR_BUFFER_SIZE dvd extra \<longrightarrow>
            buf_size (snd (cr_moremem H b extra)) = buf_size b + ceil_div extra CR_BUFFER_SIZE * CR_BUFFER_SIZE)
       \<and> take (length (buf_data b)) (buf_data (snd (cr_moremem H b extra))) = buf_data b
       \<and> buf_len (snd (cr_moremem H b extra)) = buf_len b
       \<and> buf_idx (snd (cr_moremem H b extra)) = buf_idx b"
proof -
  let ?tot = "buf_size b + (extra div CR_BUFFER_SIZE + 1) * CR_BUFFER_SIZE"
  have cd: "c_div extra CR_BUFFER_SIZE = extra div CR_BUFFER_SIZE"
    using extra by (simp add: c_div_nonneg CR_BUFFER_SIZE_def)
  have range: "\<not> (?tot < 0 \<or> INT_MAX < ?tot)"
    using ok by (auto simp: cr_moremem_def Let_def cd)
  obtain mem where re: "realloc H (buf_data b) ?tot = Some mem"
    using ok range by (auto simp: cr_moremem_def Let_def cd split: option.splits)
  have res: "cr_moremem H b extra = (0, b\<lparr>buf_data := mem, buf_size := ?tot, buf_gen := Suc (buf_gen b)\<rparr>)"
    using re range by (simp add: cr_moremem_def Let_def cd)
  have "0 \<le> extra div CR_BUFFER_SIZE"
    using extra by (simp add: CR_BUFFER_SIZE_def pos_imp_zdiv_nonneg_iff)
  then have le: "int (length (buf_data b)) \<le> ?tot"
    using block by (simp add: CR_BUFFER_SIZE_def)
  have size: "buf_size (snd (cr_moremem H b extra)) = ?tot"
    by (simp add: res)
  have keep: "take (length (buf_data b)) (buf_data (snd (cr_moremem H b extra))) = buf_data b"
    using realloc_keeps(1) [OF re le] by (simp add: res)
  have ceil: "buf_size (snd (cr_moremem H b extra)) = buf_size b + ceil_div extra CR_BUFFER_SIZE * CR_BUFFER_SIZE"
    if nd: "\<not> CR_BUFFER_SIZE dvd extra"
  proof -
    have "ceil_div extra CR_BUFFER_SIZE = extra div CR_BUFFER_SIZE + 1"
      using nd by (simp add: ceil_div_not_dvd CR_BUFFER_SIZE_def)
    then show ?thesis by (simp add: res)
  qed
  show ?thesis
    using size keep ceil by (simp add: res)
qed

theorem cr_moremem_growth_witness:
  "buf_size (snd (cr_moremem H_zero buf_full 100)) = 8192 \<and>
   take 4096 (buf_data (snd (cr_moremem H_zero buf_full 100))) = replicate 4096 (CHR ''x'')"
proof -
  have ok: "fst (cr_moremem H_zero buf_full 100) = 0"
    by (simp add: cr_moremem_H_zero buf_full_def c_div_def CR_BUFFER_SIZE_def INT_MAX_def)
  have block: "int (length (buf_data buf_full)) = buf_size buf_full"
    by (simp add: buf_full_def)
  show ?thesis
    using cr_moremem_growth [OF ok _ block]
    by (simp add: buf_full_def CR_BUFFER_SIZE_def)
qed

subsection \<open>Return codes of the decoder\<close>

text \<open>
  The multibulk loop: a \<open>return\<close> inside it is always \<open>CREDIS_ERR_PROTOCOL\<close>, and the number of
  elements counted and the number still expected add up to the declared count. The decoder
  as a whole returns one of four codes.
\<close>

lemma cr_receivemultibulk_loop_exit:
  "cr_receivemultibulk_loop H s rx i bnum line idx = Ret (e, s', rx', i', bnum') \<Longrightarrow>
   (e = None \<or> e = Some CREDIS_ERR_PROTOCOL) \<and> i' + bnum' = i + bnum \<and> (0 \<le> bnum \<longrightarrow> 0 \<le> bnum')"
proof (induction "nat bnum" arbitrary: s rx i bnum line idx rule: less_induct)
  case less
  note IH = less.hyps
  note unfold = less.prems [unfolded cr_receivemultibulk_loop.simps [of H s rx i bnum line idx]]
  show ?case
  proof (cases "0 < bnum")
    case False
    then show ?thesis using unfold by simp
  next
    case pos: True
    then have dec: "nat (bnum - 1) < nat bnum" by simp
    show ?thesis
    proof (cases "cr_readln H s 0 rx")
      case Fault
      then show ?thesis using unfold pos by simp
    next
      case (Ret r)
      obtain rc1 s1 rx1 out where r: "r = (rc1, s1, rx1, out)" by (cases r) auto
      note hd = pos Ret r
      show ?thesis
      proof (cases "0 < rc1")
        case False
        then show ?thesis using unfold hd by simp
      next
        case rc1: True
        show ?thesis
        proof (cases "peek (buf_data (buf s1)) (stored_line line out)")
          case None
          then show ?thesis using unfold hd rc1 by (simp add: Let_def)
        next
          case (Some c)
          show ?thesis
          proof (cases "c = CR_BULK")
            case False
            then show ?thesis using unfold hd rc1 Some by (simp add: Let_def)
          next
            case bulk: True
            let ?blen = "atoi (cstr (buf_data (buf s1)) (stored_line line out + 1))"
            show ?thesis
            proof (cases "?blen = - 1")
              case True
              have "cr_receivemultibulk_loop H (set_idxs s1 i (- 1)) rx1 (i + 1) (bnum - 1)
                      (stored_line line out + 1) idx = Ret (e, s', rx', i', bnum')"
                using unfold hd rc1 Some bulk True by (simp add: Let_def)
              from IH [OF dec this] show ?thesis using pos by simp
            next
              case nm: False
              show ?thesis
              proof (cases "cr_readln H s1 ?blen rx1")
                case Fault
                then show ?thesis using unfold hd rc1 Some bulk nm by (simp add: Let_def)
              next
                case rd2: (Ret r2)
                obtain rc2 s2 rx2 out2 where r2: "r2 = (rc2, s2, rx2, out2)" by (cases r2) auto
                show ?thesis
                proof (cases "rc2 = ?blen")
                  case False
                  then show ?thesis using unfold hd rc1 Some bulk nm rd2 r2 by (simp add: Let_def)
                next
                  case True
                  have "cr_receivemultibulk_loop H (set_idxs s2 i (stored_idx idx out2)) rx2 (i + 1) (bnum - 1)
                          (stored_line (stored_line line out + 1) out2) (stored_idx idx out2)
                        = Ret (e, s', rx', i', bnum')"
                    using unfold hd rc1 Some bulk nm rd2 r2 True by (simp add: Let_def)
                  from IH [OF dec this] show ?thesis using pos by simp
                qed
              qed
            qed
          qed
        qed
      qed
    qed
  qed
qed

lemma cr_receivemultibulk_loop_rc:
  "cr_receivemultibulk_loop H s rx i bnum line idx = Ret (Some rc, s', rx', i', bnum') \<Longrightarrow>
   rc = CREDIS_ERR_PROTOCOL"
  by (drule cr_receivemultibulk_loop_exit) simp

lemma cr_receivemultibulk_rc:
  assumes "cr_receivemultibulk H s line rx = Ret (rc, s', rx')"
  shows "rc = 0 \<or> rc = CREDIS_ERR_PROTOCOL \<or> rc = CREDIS_ERR_NOMEM"
proof -
  let ?bnum = "atoi (cstr (buf_data (buf s)) line)"
  let ?mb = "reply_multibulk (reply s)"
  let ?m = "if mb_size ?mb < ?bnum then cr_morebulk H ?mb (?bnum - mb_size ?mb) else (0, ?mb)"
  let ?loop = "cr_receivemultibulk_loop H (s\<lparr>reply := (reply s)\<lparr>reply_multibulk := snd ?m\<rparr>\<rparr>) rx 0 ?bnum line (uninit H)"
  show ?thesis
  proof (cases "?bnum = - 1 \<or> fst ?m \<noteq> 0")
    case True
    then show ?thesis
      using assms by (auto simp: cr_receivemultibulk_def Let_def split: if_splits)
  next
    case False
    show ?thesis
    proof (cases ?loop)
      case Fault
      then show ?thesis
        using assms False by (simp add: cr_receivemultibulk_def Let_def)
    next
      case (Ret r)
      obtain e s1 rx1 i1 b1 where r: "r = (e, s1, rx1, i1, b1)" by (cases r) auto
      show ?thesis
      proof (cases e)
        case None
        then show ?thesis
          using assms False Ret r by (simp add: cr_receivemultibulk_def Let_def split: if_splits)
      next
        case (Some rc1)
        have "rc1 = CREDIS_ERR_PROTOCOL"
          using Ret r Some by (auto dest: cr_receivemultibulk_loop_rc)
        then show ?thesis
          using assms False Ret r Some by (simp add: cr_receivemultibulk_def Let_def)
      qed
    qed
  qed
qed

lemma cr_receivebulk_rc:
  "cr_receivebulk H s line rx = Ret (rc, s', rx') \<Longrightarrow> rc = 0 \<or> rc = CREDIS_ERR_PROTOCOL"
  by (auto simp: cr_receivebulk_def Let_def split: if_splits exec.splits)

lemma cr_receivereply_rc:
  assumes "cr_receivereply H s recvtype rx = Ret (rc, s', rx')"
  shows "rc = 0 \<or> rc = CREDIS_ERR_PROTOCOL \<or> rc = CREDIS_ERR_NOMEM \<or> rc = CREDIS_ERR_RECV"
proof (cases "cr_readln H (s\<lparr>buf := (buf s)\<lparr>buf_len := 0, buf_idx := 0\<rparr>\<rparr>) 0 rx")
  case Fault
  then show ?thesis using assms by (simp add: cr_receivereply_def)
next
  case (Ret r)
  obtain rc1 s1 rx1 out where r: "r = (rc1, s1, rx1, out)" by (cases r) auto
  show ?thesis
  proof (cases "peek (buf_data (buf s1)) (stored_line (uninit H) out)")
    case None
    then show ?thesis
      using assms Ret r by (simp add: cr_receivereply_def Let_def split: if_splits)
  next
    case (Some prefix)
    show ?thesis
      using assms Ret r Some
      by (auto simp: cr_receivereply_def Let_def cr_receiveerror_def cr_receiveinline_def cr_receiveint_def
               dest: cr_receivebulk_rc cr_receivemultibulk_rc split: if_splits)
  qed
qed

lemma render_ping: "cr_sendfandreceive H_zero conn0 CR_INLINE (Some (''PING'' @ CRLF)) tx rx
   = cr_sendandreceive H_zero conn_ping CR_INLINE tx rx"
  by (simp add: cr_sendfandreceive_def vsnprintf_def blit_def conn0_def conn_ping_def consts_ev Let_def)

lemma dec_of_nat_1: "dec_of_nat 1 = ''1''"
  by code_simp

subsection \<open>C8: a send that times out\<close>

lemma cr_senddata_loop_prefix:
  "0 \<le> sent \<Longrightarrow> sent + int (sum_list ns) < sz \<Longrightarrow>
   cr_senddata_loop (map Sent ns @ TxTimeout # tx) sz sent = sent + int (sum_list ns)"
proof (induction ns arbitrary: sent)
  case Nil
  then show ?case by simp
next
  case (Cons n ns)
  have m: "min (int n) (sz - sent) = int n"
    using Cons.prems by simp
  have "cr_senddata_loop (map Sent (n # ns) @ TxTimeout # tx) sz sent
        = cr_senddata_loop (map Sent ns @ TxTimeout # tx) sz (sent + int n)"
    using Cons.prems by (simp add: m)
  also have "\<dots> = (sent + int n) + int (sum_list ns)"
    using Cons.prems by (intro Cons.IH) simp_all
  finally show ?case by simp
qed

text \<open>
  C8: when the socket accepts \<open>ns\<close> bytes in successive rounds, fewer in sum than the command
  has, and \<open>select\<close> then times out, \<open>cr_senddata\<close> returns that sum, which is less than the
  command length, and \<open>cr_sendandreceive\<close> returns \<open>CREDIS_ERR_TIMEOUT\<close>, which is not
  \<open>CREDIS_ERR_SEND\<close>. Whenever \<open>cr_sendandreceive\<close> returns \<open>CREDIS_ERR_SEND\<close>, on any
  script, \<open>cr_senddata\<close> returned a negative value.
\<close>

theorem cr_sendandreceive_timeout:
  assumes "int (sum_list ns) < buf_len (buf s)"
  shows "cr_senddata (map Sent ns @ TxTimeout # tx) (buf_len (buf s)) = int (sum_list ns)
       \<and> cr_sendandreceive H s recvtype (map Sent ns @ TxTimeout # tx) rx = Ret (CREDIS_ERR_TIMEOUT, s, rx)
       \<and> CREDIS_ERR_TIMEOUT \<noteq> CREDIS_ERR_SEND
       \<and> (\<forall>tx1 rx1 s1 rx2. cr_sendandreceive H s recvtype tx1 rx1 = Ret (CREDIS_ERR_SEND, s1, rx2)
              \<longrightarrow> cr_senddata tx1 (buf_len (buf s)) < 0)"
proof -
  have sd: "cr_senddata (map Sent ns @ TxTimeout # tx) (buf_len (buf s)) = int (sum_list ns)"
    using assms cr_senddata_loop_prefix [of 0 ns "buf_len (buf s)" tx] by (simp add: cr_senddata_def)
  have to: "cr_sendandreceive H s recvtype (map Sent ns @ TxTimeout # tx) rx = Ret (CREDIS_ERR_TIMEOUT, s, rx)"
    using assms by (simp add: cr_sendandreceive_def sd Let_def)
  have only: "cr_senddata tx1 (buf_len (buf s)) < 0"
    if "cr_sendandreceive H s recvtype tx1 rx1 = Ret (CREDIS_ERR_SEND, s1, rx2)" for tx1 rx1 s1 rx2
  proof (rule ccontr)
    assume nn: "\<not> cr_senddata tx1 (buf_len (buf s)) < 0"
    show False
    proof (cases "cr_senddata tx1 (buf_len (buf s)) = buf_len (buf s)")
      case True
      then have "cr_receivereply H s recvtype rx1 = Ret (CREDIS_ERR_SEND, s1, rx2)"
        using that by (simp add: cr_sendandreceive_def Let_def)
      then show False
        by (auto dest!: cr_receivereply_rc simp: consts_ev)
    next
      case False
      then show False
        using that nn by (simp add: cr_sendandreceive_def Let_def consts_ev)
    qed
  qed
  show ?thesis
    using sd to only by (simp add: CREDIS_ERR_TIMEOUT_def CREDIS_ERR_SEND_def)
qed

theorem cr_sendandreceive_timeout_witness:
  "cr_senddata [Sent 4, TxTimeout] 6 = 4 \<and>
   cr_sendandreceive H_zero conn_ping CR_INLINE [Sent 4, TxTimeout] [Recv (''+PONG'' @ CRLF)]
     = Ret (CREDIS_ERR_TIMEOUT, conn_ping, [Recv (''+PONG'' @ CRLF)])"
proof -
  have h: "int (sum_list [4]) < buf_len (buf conn_ping)"
    by (simp add: conn_ping_def)
  show ?thesis
    using cr_sendandreceive_timeout [OF h, of "[]" H_zero CR_INLINE "[Recv (''+PONG'' @ CRLF)]"]
    by (simp add: conn_ping_def)
qed

subsection \<open>C10: the results of SADD and ZADD\<close>

lemma cr_receivereply_int_decoded:
  assumes "cr_receivereply H s CR_INT rx = Ret (0, s1, rx1)"
  shows "\<exists>line. peek (buf_data (buf s1)) line = Some CR_INT
           \<and> reply_integer (reply s1) = atoi (cstr (buf_data (buf s1)) (line + 1))"
proof (cases "cr_readln H (s\<lparr>buf := (buf s)\<lparr>buf_len := 0, buf_idx := 0\<rparr>\<rparr>) 0 rx")
  case Fault
  then show ?thesis using assms by (simp add: cr_receivereply_def)
next
  case (Ret r)
  obtain rc0 s0 rx0 out where r: "r = (rc0, s0, rx0, out)" by (cases r) auto
  have rc0: "0 < rc0"
    using assms Ret r by (auto simp: cr_receivereply_def CREDIS_ERR_RECV_def split: if_splits)
  show ?thesis
  proof (cases "peek (buf_data (buf s0)) (stored_line (uninit H) out)")
    case None
    then show ?thesis using assms Ret r rc0 by (simp add: cr_receivereply_def Let_def)
  next
    case (Some prefix)
    have p: "prefix = CR_INT"
      using assms Ret r rc0 Some
      by (auto simp: cr_receivereply_def Let_def cr_receiveerror_def CREDIS_ERR_PROTOCOL_def split: if_splits)
    have "s1 = snd (cr_receiveint s0 (stored_line (uninit H) out + 1))"
      using assms Ret r rc0 Some p
      by (simp add: cr_receivereply_def Let_def CR_INT_def CR_ERROR_def CR_INLINE_def)
    then have "buf s1 = buf s0"
      and "reply_integer (reply s1) = atoi (cstr (buf_data (buf s0)) (stored_line (uninit H) out + 1))"
      by (simp_all add: cr_receiveint_def)
    then show ?thesis
      using Some p by auto
  qed
qed

lemma cr_sendandreceive_ok:
  assumes "cr_sendandreceive H s recvtype tx rx = Ret (0, s1, rx1)"
  shows "cr_senddata tx (buf_len (buf s)) = buf_len (buf s) \<and> cr_receivereply H s recvtype rx = Ret (0, s1, rx1)"
  using assms
  by (auto simp: cr_sendandreceive_def Let_def CREDIS_ERR_SEND_def CREDIS_ERR_TIMEOUT_def split: if_splits)

lemma cr_sendfandreceive_ok:
  assumes "cr_sendfandreceive H s recvtype (Some cmd) tx rx = Ret (0, s1, rx1)"
  shows "\<exists>s0. buf_len (buf s0) = int (length cmd) \<and> cr_senddata tx (int (length cmd)) = int (length cmd)
            \<and> cr_receivereply H s0 recvtype rx = Ret (0, s1, rx1)"
proof (cases "buf_size (buf s) \<le> int (length cmd)")
  case True
  let ?b1 = "(buf s)\<lparr>buf_data := vsnprintf (buf_data (buf s)) (buf_size (buf s)) cmd\<rparr>"
  let ?m = "cr_moremem H ?b1 (int (length cmd) - buf_size ?b1 + 1)"
  have m0: "fst ?m = 0"
    using assms True by (auto simp: cr_sendfandreceive_def Let_def CREDIS_ERR_NOMEM_def split: if_splits)
  let ?s0 = "s\<lparr>buf := (snd ?m)\<lparr>buf_data := vsnprintf (buf_data (snd ?m)) (buf_size (snd ?m)) cmd,
                                   buf_len := int (length cmd)\<rparr>\<rparr>"
  have "cr_sendandreceive H ?s0 recvtype tx rx = Ret (0, s1, rx1)"
    using assms True m0 by (simp add: cr_sendfandreceive_def Let_def)
  from cr_sendandreceive_ok [OF this] show ?thesis
    by (intro exI [of _ ?s0]) simp
next
  case False
  let ?s0 = "s\<lparr>buf := (buf s)\<lparr>buf_data := vsnprintf (buf_data (buf s)) (buf_size (buf s)) cmd,
                                  buf_len := int (length cmd)\<rparr>\<rparr>"
  have "cr_sendandreceive H ?s0 recvtype tx rx = Ret (0, s1, rx1)"
    using assms False by (simp add: cr_sendfandreceive_def Let_def)
  from cr_sendandreceive_ok [OF this] show ?thesis
    by (intro exI [of _ ?s0]) simp
qed

text \<open>
  C10: when the round trip of \<open>SADD\<close> or \<open>ZADD\<close> succeeds (\<open>cr_sendfandreceive\<close> returns 0
  for the reply type \<open>:\<close>, which it does only when the command was sent in full and a line
  with the prefix \<open>:\<close> was decoded), \<open>credis_sadd\<close> and \<open>credis_zadd\<close> return \<open>-1\<close> exactly when
  the decoded integer is 0, and 0 otherwise. The decoded integer is \<open>atoi\<close> of the text after
  the prefix.
\<close>

theorem credis_sadd_zadd_result:
  "(cr_sendfandreceive H s CR_INT
       (Some (''SADD'' @ '' '' @ key @ '' '' @ dec_of_nat (length member) @ CRLF @ member @ CRLF)) tx rx
      = Ret (0, s1, rx1)
    \<longrightarrow> credis_sadd H s key member tx rx = Ret (if reply_integer (reply s1) = 0 then - 1 else 0, s1, rx1)
       \<and> (\<exists>line. peek (buf_data (buf s1)) line = Some CR_INT
              \<and> reply_integer (reply s1) = atoi (cstr (buf_data (buf s1)) (line + 1))))
   \<and>
   (cr_sendfandreceive H s CR_INT
       (Some (''ZADD '' @ key @ '' '' @ score @ '' '' @ dec_of_nat (length member) @ CRLF @ member @ CRLF)) tx rx
      = Ret (0, s2, rx2)
    \<longrightarrow> credis_zadd H s key score member tx rx = Ret (if reply_integer (reply s2) = 0 then - 1 else 0, s2, rx2)
       \<and> (\<exists>line. peek (buf_data (buf s2)) line = Some CR_INT
              \<and> reply_integer (reply s2) = atoi (cstr (buf_data (buf s2)) (line + 1))))"
proof (intro conjI impI)
  assume a: "cr_sendfandreceive H s CR_INT
       (Some (''SADD'' @ '' '' @ key @ '' '' @ dec_of_nat (length member) @ CRLF @ member @ CRLF)) tx rx
      = Ret (0, s1, rx1)"
  then show "credis_sadd H s key member tx rx = Ret (if reply_integer (reply s1) = 0 then - 1 else 0, s1, rx1)"
    by (simp add: credis_sadd_def cr_setaddrem_def)
  from cr_sendfandreceive_ok [OF a]
  show "\<exists>line. peek (buf_data (buf s1)) line = Some CR_INT
              \<and> reply_integer (reply s1) = atoi (cstr (buf_data (buf s1)) (line + 1))"
    by (auto dest: cr_receivereply_int_decoded)
next
  assume a: "cr_sendfandreceive H s CR_INT
       (Some (''ZADD '' @ key @ '' '' @ score @ '' '' @ dec_of_nat (length member) @ CRLF @ member @ CRLF)) tx rx
      = Ret (0, s2, rx2)"
  then show "credis_zadd H s key score member tx rx = Ret (if reply_integer (reply s2) = 0 then - 1 else 0, s2, rx2)"
    by (simp add: credis_zadd_def)
  from cr_sendfandreceive_ok [OF a]
  show "\<exists>line. peek (buf_data (buf s2)) line = Some CR_INT
              \<and> reply_integer (reply s2) = atoi (cstr (buf_data (buf s2)) (line + 1))"
    by (auto dest: cr_receivereply_int_decoded)
qed

theorem credis_sadd_zadd_result_witness:
  "ret_code (credis_sadd H_zero conn0 ''k'' ''m'' [Sent 13] [Recv ('':0'' @ CRLF)]) = Some (- 1) \<and>
   ret_code (credis_sadd H_zero conn0 ''k'' ''m'' [Sent 13] [Recv ('':1'' @ CRLF)]) = Some 0 \<and>
   ret_code (credis_zadd H_zero conn0 ''k'' ''2.500000'' ''m'' [Sent 22] [Recv ('':0'' @ CRLF)]) = Some (- 1) \<and>
   ret_code (credis_zadd H_zero conn0 ''k'' ''2.500000'' ''m'' [Sent 22] [Recv ('':1'' @ CRLF)]) = Some 0"
proof -
  have "\<exists>s1 rx1. cr_sendfandreceive H_zero conn0 CR_INT
           (Some (''SADD'' @ '' '' @ ''k'' @ '' '' @ dec_of_nat (length ''m'') @ CRLF @ ''m'' @ CRLF))
           [Sent 13] [Recv ('':0'' @ CRLF)] = Ret (0, s1, rx1) \<and> reply_integer (reply s1) = 0"
    by (simp add: dec_of_nat_1 send_ev reply_ev readln_ev atoi_ev consts_ev H_zero_def conn0_def)
  then obtain a1 b1 where a: "cr_sendfandreceive H_zero conn0 CR_INT
           (Some (''SADD'' @ '' '' @ ''k'' @ '' '' @ dec_of_nat (length ''m'') @ CRLF @ ''m'' @ CRLF))
           [Sent 13] [Recv ('':0'' @ CRLF)] = Ret (0, a1, b1)" and a0: "reply_integer (reply a1) = 0"
    by blast
  have "\<exists>s1 rx1. cr_sendfandreceive H_zero conn0 CR_INT
           (Some (''SADD'' @ '' '' @ ''k'' @ '' '' @ dec_of_nat (length ''m'') @ CRLF @ ''m'' @ CRLF))
           [Sent 13] [Recv ('':1'' @ CRLF)] = Ret (0, s1, rx1) \<and> reply_integer (reply s1) = 1"
    by (simp add: dec_of_nat_1 send_ev reply_ev readln_ev atoi_ev consts_ev H_zero_def conn0_def)
  then obtain a2 b2 where b: "cr_sendfandreceive H_zero conn0 CR_INT
           (Some (''SADD'' @ '' '' @ ''k'' @ '' '' @ dec_of_nat (length ''m'') @ CRLF @ ''m'' @ CRLF))
           [Sent 13] [Recv ('':1'' @ CRLF)] = Ret (0, a2, b2)" and b0: "reply_integer (reply a2) = 1"
    by blast
  have "\<exists>s1 rx1. cr_sendfandreceive H_zero conn0 CR_INT
           (Some (''ZADD '' @ ''k'' @ '' '' @ ''2.500000'' @ '' '' @ dec_of_nat (length ''m'') @ CRLF @ ''m'' @ CRLF))
           [Sent 22] [Recv ('':0'' @ CRLF)] = Ret (0, s1, rx1) \<and> reply_integer (reply s1) = 0"
    by (simp add: dec_of_nat_1 send_ev reply_ev readln_ev atoi_ev consts_ev H_zero_def conn0_def)
  then obtain a3 b3 where c: "cr_sendfandreceive H_zero conn0 CR_INT
           (Some (''ZADD '' @ ''k'' @ '' '' @ ''2.500000'' @ '' '' @ dec_of_nat (length ''m'') @ CRLF @ ''m'' @ CRLF))
           [Sent 22] [Recv ('':0'' @ CRLF)] = Ret (0, a3, b3)" and c0: "reply_integer (reply a3) = 0"
    by blast
  have "\<exists>s1 rx1. cr_sendfandreceive H_zero conn0 CR_INT
           (Some (''ZADD '' @ ''k'' @ '' '' @ ''2.500000'' @ '' '' @ dec_of_nat (length ''m'') @ CRLF @ ''m'' @ CRLF))
           [Sent 22] [Recv ('':1'' @ CRLF)] = Ret (0, s1, rx1) \<and> reply_integer (reply s1) = 1"
    by (simp add: dec_of_nat_1 send_ev reply_ev readln_ev atoi_ev consts_ev H_zero_def conn0_def)
  then obtain a4 b4 where d: "cr_sendfandreceive H_zero conn0 CR_INT
           (Some (''ZADD '' @ ''k'' @ '' '' @ ''2.500000'' @ '' '' @ dec_of_nat (length ''m'') @ CRLF @ ''m'' @ CRLF))
           [Sent 22] [Recv ('':1'' @ CRLF)] = Ret (0, a4, b4)" and d0: "reply_integer (reply a4) = 1"
    by blast
  note r = credis_sadd_zadd_result
  show ?thesis
    using r [THEN conjunct1, rule_format, OF a] r [THEN conjunct1, rule_format, OF b]
      r [THEN conjunct2, rule_format, OF c] r [THEN conjunct2, rule_format, OF d] a0 b0 c0 d0
    by (simp add: ret_code_def)
qed

subsection \<open>C5: error replies\<close>

text \<open>
  C5, as stated: a reply that starts with \<open>-\<close> is reported as a failure that is distinct from
  the protocol error. This fails: \<open>cr_receiveerror\<close> returns \<open>CREDIS_ERR_PROTOCOL\<close>, the code
  that a reply with an unknown prefix gets as well.
\<close>

theorem error_reply_code_counterexample:
  "ret_code (credis_ping H_zero conn0 [Sent 6] [Recv (''-ERR unknown command'' @ CRLF)]) = Some CREDIS_ERR_PROTOCOL \<and>
   ret_code (credis_ping H_zero conn0 [Sent 6] [Recv (''!'' @ CRLF)]) = Some CREDIS_ERR_PROTOCOL"
  by (simp add: ret_code_def credis_ping_def send_ev reply_ev readln_ev consts_ev H_zero_def conn0_def)

text \<open>
  C5, amended: for every reply whose first line starts with \<open>-\<close>, the decoder returns
  \<open>CREDIS_ERR_PROTOCOL\<close>, whatever reply type was expected, and stores the position after the
  prefix in \<open>reply.line\<close>, where \<open>credis_errorreply\<close> finds the error text.
\<close>

theorem cr_receivereply_error_reply:
  assumes rd: "cr_readln H (s\<lparr>buf := (buf s)\<lparr>buf_len := 0, buf_idx := 0\<rparr>\<rparr>) 0 rx = Ret (n, s1, rx1, Some (line, ix))"
    and n: "0 < n"
    and first: "peek (buf_data (buf s1)) line = Some CR_ERROR"
  shows "cr_receivereply H s recvtype rx
           = Ret (CREDIS_ERR_PROTOCOL, s1\<lparr>reply := (reply s1)\<lparr>reply_line := Some (line + 1)\<rparr>\<rparr>, rx1)
       \<and> credis_errorreply (s1\<lparr>reply := (reply s1)\<lparr>reply_line := Some (line + 1)\<rparr>\<rparr>) = Some (line + 1)"
  using assms
  by (simp add: cr_receivereply_def Let_def stored_line_def cr_receiveerror_def credis_errorreply_def)

theorem cr_receivereply_error_reply_witness:
  "ret_code (cr_receivereply H_zero conn_ping CR_INLINE [Recv (''-ERR unknown command'' @ CRLF)])
     = Some CREDIS_ERR_PROTOCOL \<and>
   (\<exists>s. ret_conn (cr_receivereply H_zero conn_ping CR_INLINE [Recv (''-ERR unknown command'' @ CRLF)]) = Some s
        \<and> credis_errorreply s = Some 1 \<and> cstr (buf_data (buf s)) 1 = ''ERR unknown command'')"
proof -
  have "\<exists>n s1 rx1. cr_readln H_zero (conn_ping\<lparr>buf := (buf conn_ping)\<lparr>buf_len := 0, buf_idx := 0\<rparr>\<rparr>) 0
            [Recv (''-ERR unknown command'' @ CRLF)] = Ret (n, s1, rx1, Some (0, 0))
          \<and> 0 < n \<and> peek (buf_data (buf s1)) 0 = Some CR_ERROR
          \<and> cstr (buf_data (buf s1)) 1 = ''ERR unknown command''"
    by (simp add: readln_ev consts_ev cstr_def H_zero_def conn_ping_def conn0_def)
  then obtain n s1 rx1 where
    rd: "cr_readln H_zero (conn_ping\<lparr>buf := (buf conn_ping)\<lparr>buf_len := 0, buf_idx := 0\<rparr>\<rparr>) 0
            [Recv (''-ERR unknown command'' @ CRLF)] = Ret (n, s1, rx1, Some (0, 0))"
    and n: "0 < n" and first: "peek (buf_data (buf s1)) 0 = Some CR_ERROR"
    and err: "cstr (buf_data (buf s1)) 1 = ''ERR unknown command''"
    by blast
  show ?thesis
    using cr_receivereply_error_reply [OF rd n first, of CR_INLINE] err
    by (simp add: ret_code_def ret_conn_def)
qed

subsection \<open>C9: integer replies\<close>

lemma foldl_horner:
  "foldl (\<lambda>a c. 10 * a + digit_val c) a ds = a * 10 ^ length ds + decimal_value ds"
  by (induction ds arbitrary: a) (simp_all add: algebra_simps)

lemma dec_digits_value: "dec_digits ds = decimal_value ds"
  by (simp add: dec_digits_def foldl_horner)

lemma isdigit_not_isspace: "isdigit c \<Longrightarrow> \<not> isspace c"
  by (auto simp: isdigit_def isspace_def)

lemma isdigit_not_sign: "isdigit c \<Longrightarrow> c \<noteq> CHR ''-'' \<and> c \<noteq> CHR ''+''"
  by (auto simp: isdigit_def)

lemma sign_not_isspace: "\<not> isspace CHR ''-''" "\<not> isspace CHR ''+''"
  by (simp_all add: isspace_def)

lemma decimal_value_nonneg: "\<forall>c\<in>set ds. isdigit c \<Longrightarrow> 0 \<le> decimal_value ds"
  by (induction ds) (auto simp: isdigit_def digit_val_def)

lemma strtol_leading_numeral:
  assumes "leading_numeral t ws sg ds rest"
  shows "strtol t = strtol_sat (if sg = ''-'' then - decimal_value ds else decimal_value ds)"
proof -
  have t: "t = ws @ sg @ ds @ rest"
    and ws: "\<forall>c\<in>set ws. isspace c"
    and sg: "sg = [] \<or> sg = ''-'' \<or> sg = ''+''"
    and ds: "\<forall>c\<in>set ds. isdigit c"
    and rest: "rest = [] \<or> \<not> isdigit (hd rest)"
    and bare: "sg = [] \<and> ds = [] \<longrightarrow>
                 rest = [] \<or> (\<not> isspace (hd rest) \<and> hd rest \<noteq> CHR ''-'' \<and> hd rest \<noteq> CHR ''+'')"
    using assms by (simp_all add: leading_numeral_def)
  let ?u = "sg @ ds @ rest"
  have hd_u: "?u = [] \<or> \<not> isspace (hd ?u)"
  proof (cases "sg = []")
    case False
    then show ?thesis using sg by (auto simp: sign_not_isspace)
  next
    case sg0: True
    show ?thesis
    proof (cases "ds = []")
      case False
      then have "isdigit (hd ds)" using ds by (cases ds) simp_all
      then show ?thesis using sg0 False by (simp add: isdigit_not_isspace)
    next
      case True
      then show ?thesis using sg0 bare by auto
    qed
  qed
  have "dropWhile isspace t = dropWhile isspace ?u"
    unfolding t using ws by (intro dropWhile_append2) simp
  also have "\<dots> = ?u"
    using hd_u by (simp only: dropWhile_eq_self_iff)
  finally have dw: "dropWhile isspace t = ?u" .
  have tw_rest: "takeWhile isdigit rest = []"
    using rest by (simp only: takeWhile_eq_Nil_iff)
  have tw: "takeWhile isdigit (ds @ rest) = ds"
    using ds tw_rest by (simp add: takeWhile_append2)
  have ss: "strip_sign ?u = (sg = ''-'', ds @ rest)"
  proof (cases "sg = []")
    case False
    then show ?thesis using sg by (auto simp: strip_sign_def)
  next
    case sg0: True
    show ?thesis
    proof (cases "ds = []")
      case False
      then obtain d r where d: "ds = d # r" by (cases ds) auto
      then have "isdigit d" using ds by simp
      then show ?thesis using sg0 d by (simp add: strip_sign_def isdigit_not_sign)
    next
      case True
      then show ?thesis using sg0 bare by (cases rest) (auto simp: strip_sign_def)
    qed
  qed
  show ?thesis
    by (simp add: strtol_def Let_def dw ss tw dec_digits_value)
qed

lemma leading_numeral_exists: "\<exists>ws sg ds rest. leading_numeral t ws sg ds rest"
proof -
  define ws where "ws = takeWhile isspace t"
  define u where "u = dropWhile isspace t"
  define sg where "sg = (if u \<noteq> [] \<and> hd u = CHR ''-'' then ''-'' else if u \<noteq> [] \<and> hd u = CHR ''+'' then ''+'' else [])"
  define v where "v = drop (length sg) u"
  define ds where "ds = takeWhile isdigit v"
  define rest where "rest = dropWhile isdigit v"
  have u: "u = sg @ v"
    by (cases u) (auto simp: sg_def v_def)
  have "t = ws @ u"
    by (simp add: ws_def u_def)
  moreover have "v = ds @ rest"
    by (simp add: ds_def rest_def)
  ultimately have "t = ws @ sg @ ds @ rest"
    using u by simp
  moreover have "\<forall>c\<in>set ws. isspace c"
    by (auto simp: ws_def dest: set_takeWhileD)
  moreover have "sg = [] \<or> sg = ''-'' \<or> sg = ''+''"
    by (simp add: sg_def)
  moreover have "\<forall>c\<in>set ds. isdigit c"
    by (auto simp: ds_def dest: set_takeWhileD)
  moreover have "rest = [] \<or> \<not> isdigit (hd rest)"
    using hd_dropWhile [of isdigit v] by (auto simp: rest_def)
  moreover have "rest = [] \<or> (\<not> isspace (hd rest) \<and> hd rest \<noteq> CHR ''-'' \<and> hd rest \<noteq> CHR ''+'')"
    if "sg = []" "ds = []"
  proof (cases "rest = []")
    case True
    then show ?thesis by simp
  next
    case False
    have "v = ds @ rest" by (simp add: ds_def rest_def)
    then have "v = rest" using that(2) by simp
    then have r: "rest = u" using that(1) u by simp
    have "u \<noteq> []" using False r by simp
    then have "\<not> isspace (hd u)" using hd_dropWhile [of isspace t] by (simp add: u_def)
    moreover have "hd u \<noteq> CHR ''-'' \<and> hd u \<noteq> CHR ''+''"
      using that(1) \<open>u \<noteq> []\<close> by (auto simp: sg_def split: if_splits)
    ultimately show ?thesis using r by simp
  qed
  ultimately have "leading_numeral t ws sg ds rest"
    by (simp add: leading_numeral_def)
  then show ?thesis by blast
qed

lemma atoi_in_range:
  assumes "- (2 ^ 31) \<le> v" and "v < 2 ^ 31"
  shows "to_int32 (strtol_sat v) = v"
proof -
  have "strtol_sat v = v"
    using assms by (simp add: strtol_sat_def)
  then show ?thesis
    using assms by (simp add: to_int32_def signed_take_bit_int_eq_self)
qed

lemma atoi_bounds: "- (2 ^ 31) \<le> atoi t \<and> atoi t < 2 ^ 31"
  using signed_take_bit_int_greater_eq_minus_exp [of 31 "strtol t"]
        signed_take_bit_int_less_exp [of 31 "strtol t"]
  by (simp add: atoi_def to_int32_def)

lemma atoi_leading_numeral:
  assumes "leading_numeral t ws sg ds rest"
  shows "atoi t = to_int32 (strtol_sat (if sg = ''-'' then - decimal_value ds else decimal_value ds))"
    and "ds = [] \<Longrightarrow> atoi t = 0"
    and "sg \<noteq> ''-'' \<Longrightarrow> decimal_value ds < 2 ^ 31 \<Longrightarrow> atoi t = decimal_value ds"
    and "sg = ''-'' \<Longrightarrow> decimal_value ds \<le> 2 ^ 31 \<Longrightarrow> atoi t = - decimal_value ds"
proof -
  have nn: "0 \<le> decimal_value ds"
    using assms by (intro decimal_value_nonneg) (simp add: leading_numeral_def)
  show v: "atoi t = to_int32 (strtol_sat (if sg = ''-'' then - decimal_value ds else decimal_value ds))"
    by (simp only: atoi_def strtol_leading_numeral [OF assms])
  show "atoi t = 0" if "ds = []"
    using that atoi_in_range [of 0] by (simp add: v)
  show "atoi t = decimal_value ds" if "sg \<noteq> ''-''" "decimal_value ds < 2 ^ 31"
    using that nn atoi_in_range [of "decimal_value ds"] by (simp add: v)
  show "atoi t = - decimal_value ds" if "sg = ''-''" "decimal_value ds \<le> 2 ^ 31"
    using that nn atoi_in_range [of "- decimal_value ds"] by (simp add: v)
qed

text \<open>
  C9, as stated: the integer field holds the base-10 value of the text of an integer reply,
  as an \<open>i64\<close>, and 0 for every text that is not numeric. This fails twice. The field is a C
  \<open>int\<close> and \<open>atoi\<close> returns an \<open>int\<close>: the reply \<open>:2147483648\<close>, whose value fits 64 bits, is
  decoded without error and leaves \<open>-2147483648\<close> in the field. And \<open>atoi\<close> converts the
  digits that a text starts with and ignores what follows them: the reply \<open>:12abc\<close>, whose
  text is not a numeral, leaves 12 in the field and not 0.
\<close>

theorem cr_receiveint_i64_counterexample:
  "ret_code (cr_receivereply H_zero conn0 CR_INT [Recv ('':2147483648'' @ CRLF)]) = Some 0 \<and>
   ret_integer (cr_receivereply H_zero conn0 CR_INT [Recv ('':2147483648'' @ CRLF)]) = Some (- 2147483648) \<and>
   decimal_value ''2147483648'' = 2147483648 \<and>
   ret_code (cr_receivereply H_zero conn0 CR_INT [Recv ('':12abc'' @ CRLF)]) = Some 0 \<and>
   ret_integer (cr_receivereply H_zero conn0 CR_INT [Recv ('':12abc'' @ CRLF)]) = Some 12"
  by (simp add: ret_code_def ret_integer_def reply_ev readln_ev atoi_ev consts_ev H_zero_def conn0_def)

text \<open>
  C9, amended: for every integer reply line \<open>:text\<close>, decoding succeeds and stores a value
  of the 32-bit range in the integer field. Every text splits in one way into white space,
  an optional sign \<open>-\<close> or \<open>+\<close>, the longest run of decimal digits that follows, and a rest
  that is ignored. The value stored is the base-10 value of the digits, negated after the
  sign \<open>-\<close>, whenever that lies in the 32-bit range; it is 0 when there are no digits; and
  in general it is that value, cut off at the bounds of \<open>long\<close> and reduced to its low 32
  bits.
\<close>

theorem cr_receiveint_value:
  assumes "cstr (buf_data (buf s)) line = t"
  shows "fst (cr_receiveint s line) = 0
       \<and> - (2 ^ 31) \<le> reply_integer (reply (snd (cr_receiveint s line)))
       \<and> reply_integer (reply (snd (cr_receiveint s line))) < 2 ^ 31
       \<and> (\<exists>ws sg ds rest. leading_numeral t ws sg ds rest)
       \<and> (\<forall>ws sg ds rest. leading_numeral t ws sg ds rest \<longrightarrow>
              (ds = [] \<longrightarrow> reply_integer (reply (snd (cr_receiveint s line))) = 0)
            \<and> (sg \<noteq> ''-'' \<and> decimal_value ds < 2 ^ 31
                 \<longrightarrow> reply_integer (reply (snd (cr_receiveint s line))) = decimal_value ds)
            \<and> (sg = ''-'' \<and> decimal_value ds \<le> 2 ^ 31
                 \<longrightarrow> reply_integer (reply (snd (cr_receiveint s line))) = - decimal_value ds)
            \<and> reply_integer (reply (snd (cr_receiveint s line)))
                = to_int32 (strtol_sat (if sg = ''-'' then - decimal_value ds else decimal_value ds)))"
proof -
  have v: "reply_integer (reply (snd (cr_receiveint s line))) = atoi t"
    using assms by (simp add: cr_receiveint_def)
  have c1: "fst (cr_receiveint s line) = 0"
    by (simp add: cr_receiveint_def)
  have c2: "- (2 ^ 31) \<le> atoi t" and c3: "atoi t < 2 ^ 31"
    using atoi_bounds [of t] by simp_all
  have c4: "\<exists>ws sg ds rest. leading_numeral t ws sg ds rest"
    by (rule leading_numeral_exists)
  have c5: "\<forall>ws sg ds rest. leading_numeral t ws sg ds rest \<longrightarrow>
              (ds = [] \<longrightarrow> atoi t = 0)
            \<and> (sg \<noteq> ''-'' \<and> decimal_value ds < 2 ^ 31 \<longrightarrow> atoi t = decimal_value ds)
            \<and> (sg = ''-'' \<and> decimal_value ds \<le> 2 ^ 31 \<longrightarrow> atoi t = - decimal_value ds)
            \<and> atoi t = to_int32 (strtol_sat (if sg = ''-'' then - decimal_value ds else decimal_value ds))"
    using atoi_leading_numeral by blast
  show ?thesis
    unfolding v using c1 c2 c3 c4 c5 by (intro conjI)
qed

theorem cr_receiveint_value_witness:
  "reply_integer (reply (snd (cr_receiveint (conn_line '':42'') 1))) = 42 \<and>
   reply_integer (reply (snd (cr_receiveint (conn_line '':-3'') 1))) = - 3 \<and>
   reply_integer (reply (snd (cr_receiveint (conn_line '':+7'') 1))) = 7 \<and>
   reply_integer (reply (snd (cr_receiveint (conn_line '': 42'') 1))) = 42 \<and>
   reply_integer (reply (snd (cr_receiveint (conn_line '':12abc'') 1))) = 12 \<and>
   reply_integer (reply (snd (cr_receiveint (conn_line '':abc'') 1))) = 0 \<and>
   reply_integer (reply (snd (cr_receiveint (conn_line '':-abc'') 1))) = 0 \<and>
   reply_integer (reply (snd (cr_receiveint (conn_line '':'') 1))) = 0"
proof -
  have t: "cstr (buf_data (buf (conn_line '':42''))) 1 = ''42''"
    "cstr (buf_data (buf (conn_line '':-3''))) 1 = ''-3''"
    "cstr (buf_data (buf (conn_line '':+7''))) 1 = ''+7''"
    "cstr (buf_data (buf (conn_line '': 42''))) 1 = '' 42''"
    "cstr (buf_data (buf (conn_line '':12abc''))) 1 = ''12abc''"
    "cstr (buf_data (buf (conn_line '':abc''))) 1 = ''abc''"
    "cstr (buf_data (buf (conn_line '':-abc''))) 1 = ''-abc''"
    "cstr (buf_data (buf (conn_line '':''))) 1 = []"
    by (simp_all add: conn_line_def cstr_def NUL_def)
  have n: "leading_numeral ''42'' [] [] ''42'' []"
    "leading_numeral ''-3'' [] ''-'' ''3'' []"
    "leading_numeral ''+7'' [] ''+'' ''7'' []"
    "leading_numeral '' 42'' '' '' [] ''42'' []"
    "leading_numeral ''12abc'' [] [] ''12'' ''abc''"
    "leading_numeral ''abc'' [] [] [] ''abc''"
    "leading_numeral ''-abc'' [] ''-'' [] ''abc''"
    "leading_numeral [] [] [] [] []"
    by (simp_all add: leading_numeral_def isdigit_def isspace_def)
  note r = cr_receiveint_value [THEN conjunct2, THEN conjunct2, THEN conjunct2, THEN conjunct2, rule_format]
  show ?thesis
    using r [OF t(1) n(1)] r [OF t(2) n(2)] r [OF t(3) n(3)] r [OF t(4) n(4)] r [OF t(5) n(5)]
      r [OF t(6) n(6)] r [OF t(7) n(7)] r [OF t(8) n(8)]
    by (simp add: digit_val_def)
qed

subsection \<open>What the decoder leaves alone\<close>






subsection \<open>C4: the version handshake of credis_connect\<close>


text \<open>
  \<open>cr_new\<close> when memory is short: a failure of \<open>calloc\<close> leads to \<open>cr_delete(NULL)\<close>, which
  dereferences \<open>NULL\<close>; a failure of a later \<open>malloc\<close> frees what was allocated.
\<close>

lemma cr_new_calloc_fails: "\<not> can_alloc H 112 \<Longrightarrow> cr_new H = Fault"
  by (simp add: cr_new_def cr_delete_def)

lemma cr_new_malloc_fails:
  "can_alloc H 112 \<Longrightarrow> can_alloc H 32 \<Longrightarrow> \<not> can_alloc H CR_BUFFER_SIZE \<Longrightarrow>
   cr_new H = Ret (None, [Blk_ip, Blk_handle])"
  by (simp add: cr_new_def cr_delete_def)

lemma connect_error_eq:
  "connect_error fd0 = Ret (None, (if 0 < fd0 then [fd0] else []), [Blk_bulks, Blk_idxs, Blk_data, Blk_ip, Blk_handle])"
  by (simp add: connect_error_def cr_delete_def)

text \<open>When the transport fails, the connection is torn down in the same way.\<close>

lemma credis_connect_net_fails:
  "cr_new H = Ret (Some rhnd, gone0) \<Longrightarrow>
   credis_connect H (NetFail fd0) port0 timeout0 tx rx
     = Ret (None, (if 0 < fd0 then [fd0] else []), [Blk_bulks, Blk_idxs, Blk_data, Blk_ip, Blk_handle])"
  by (simp add: credis_connect_def connect_error_eq)













subsection \<open>C1: the length of a bulk payload\<close>

text \<open>
  C1 says that a bulk reply whose payload line has another length than the declared one is
  a protocol error. \<open>cr_receivebulk\<close> accepts every result of \<open>cr_readln\<close> that is not
  negative, where the multibulk loop compares the result with the declared length. The
  reply \<open>$3\<close> followed by the six bytes \<open>foobar\<close> is decoded without error as the bulk value
  \<open>foobar\<close>; and when the connection is closed after the line \<open>$3\<close>, \<open>cr_readln\<close> returns 0
  without storing a line, and the decoder succeeds with a bulk value that points at the
  text of the length line.
\<close>

theorem cr_receivebulk_accepts_wrong_length:
  "ret_code (cr_sendfandreceive H_zero conn0 CR_BULK (Some (''INFO'' @ CRLF)) [Sent 6]
      [Recv (''$3'' @ CRLF @ ''foobar'' @ CRLF)]) = Some 0 \<and>
   ret_bulk (cr_sendfandreceive H_zero conn0 CR_BULK (Some (''INFO'' @ CRLF)) [Sent 6]
      [Recv (''$3'' @ CRLF @ ''foobar'' @ CRLF)]) = Some ''foobar'' \<and>
   ret_code (cr_sendfandreceive H_zero conn0 CR_BULK (Some (''INFO'' @ CRLF)) [Sent 6]
      [Recv (''$3'' @ CRLF)]) = Some 0 \<and>
   ret_bulk (cr_sendfandreceive H_zero conn0 CR_BULK (Some (''INFO'' @ CRLF)) [Sent 6]
      [Recv (''$3'' @ CRLF)]) = Some ''3''"
  by (simp add: ret_code_def ret_bulk_def send_ev reply_ev readln_ev atoi_ev consts_ev H_zero_def conn0_def)

subsection \<open>C3: multibulk replies\<close>


lemma replicate_update_first: "0 < n \<Longrightarrow> (replicate n x)[0 := v] = v # replicate (n - 1) x"
  by (cases n) simp_all



text \<open>
  The decoder called with the reply type \<open>*\<close>, which no function of credis.c does. In the
  loop of \<open>cr_receivemultibulk\<close> the payload read counts as complete when its result equals
  the declared length. For an element of the declared length 0 the result 0, by which
  \<open>cr_readln\<close> reports that the peer has closed the connection, passes this test: the reply
  \<open>*1\<close>, \<open>$0\<close> without the payload line would be decoded as one element, and the offset
  recorded for it would be the value of the local \<open>idx\<close> that was never assigned.
\<close>

lemma cr_receivemultibulk_zero_length_at_eof:
  "ret_code (cr_receivereply H_junk conn0 CR_MULTIBULK [Recv (''*1'' @ CRLF @ ''$0'' @ CRLF)]) = Some 0 \<and>
   ret_multibulk (cr_receivereply H_junk conn0 CR_MULTIBULK [Recv (''*1'' @ CRLF @ ''$0'' @ CRLF)])
     = Some (1, [Some 77])"
  by (simp add: ret_code_def ret_multibulk_def reply_ev readln_ev atoi_ev consts_ev H_junk_def conn0_def
        replicate_update_first)

subsection \<open>What a line read does to the cursors\<close>

text \<open>
  A terminator that \<open>cr_findnl\<close> reports starts inside the bytes it was asked to inspect, and
  there is a carriage return there and a line feed after it in memory. The loop of
  \<open>cr_readln\<close> keeps the block consistent and \<open>len\<close> within the capacity. So a line read never
  moves \<open>idx\<close> further than one byte past \<open>len\<close>.
\<close>

lemma cr_findnl_range:
  "cr_findnl mem p n = Ret (Some q) \<Longrightarrow>
   p \<le> q \<and> q < p + n \<and> peek mem q = Some CR \<and> peek mem (q + 1) = Some LF \<and> 0 \<le> p"
proof (induction mem p n rule: cr_findnl.induct)
  case (1 mem p n)
  note unfold = "1.prems" [unfolded cr_findnl.simps [of mem p n]]
  show ?case
  proof (cases "0 \<le> n - 1")
    case False
    then show ?thesis using unfold by simp
  next
    case pos: True
    show ?thesis
    proof (cases "peek mem p")
      case None
      then show ?thesis using unfold pos by simp
    next
      case (Some c)
      have p0: "0 \<le> p"
        using Some by (simp add: peek_def split: if_splits)
      show ?thesis
      proof (cases "c = CR")
        case False
        then have "cr_findnl mem (p + 1) (n - 1) = Ret (Some q)"
          using unfold pos Some by simp
        from "1.IH"(2) [OF pos Some False this] show ?thesis using p0 by simp
      next
        case cr: True
        show ?thesis
        proof (cases "peek mem (p + 1)")
          case None
          then show ?thesis using unfold pos Some cr by simp
        next
          case d: (Some d)
          show ?thesis
          proof (cases "d = LF")
            case True
            then show ?thesis using unfold pos Some cr d p0 by auto
          next
            case False
            then have "cr_findnl mem (p + 1) (n - 1) = Ret (Some q)"
              using unfold pos Some cr d by simp
            from "1.IH"(1) [OF pos Some cr d False this] show ?thesis using p0 by simp
          qed
        qed
      qed
    qed
  qed
qed

lemma cr_moremem_block_ok:
  assumes "block_ok b" and "0 < sz" and "fst (cr_moremem H b sz) = 0"
  shows "block_ok (snd (cr_moremem H b sz))"
    and "buf_len (snd (cr_moremem H b sz)) = buf_len b"
    and "buf_idx (snd (cr_moremem H b sz)) = buf_idx b"
    and "buf_size b < buf_size (snd (cr_moremem H b sz))"
proof -
  let ?tot = "buf_size b + (c_div sz CR_BUFFER_SIZE + 1) * CR_BUFFER_SIZE"
  have n: "0 \<le> c_div sz CR_BUFFER_SIZE"
    using assms(2) by (simp add: c_div_def CR_BUFFER_SIZE_def pos_imp_zdiv_nonneg_iff)
  then have gt: "buf_size b < ?tot"
    by (simp add: CR_BUFFER_SIZE_def)
  have range: "\<not> (?tot < 0 \<or> INT_MAX < ?tot)"
    using assms(3) by (auto simp: cr_moremem_def Let_def)
  obtain mem where re: "realloc H (buf_data b) ?tot = Some mem"
    using assms(3) range by (auto simp: cr_moremem_def Let_def split: option.splits)
  have res: "cr_moremem H b sz = (0, b\<lparr>buf_data := mem, buf_size := ?tot, buf_gen := Suc (buf_gen b)\<rparr>)"
    using re range by (simp add: cr_moremem_def Let_def)
  have "int (length mem) = ?tot"
    using re gt assms(1) by (auto simp: realloc_def block_ok_def split: if_splits)
  then show "block_ok (snd (cr_moremem H b sz))"
    using assms(1) gt range by (simp add: res block_ok_def)
  show "buf_len (snd (cr_moremem H b sz)) = buf_len b" "buf_idx (snd (cr_moremem H b sz)) = buf_idx b"
    by (simp_all add: res)
  show "buf_size b < buf_size (snd (cr_moremem H b sz))"
    using gt by (simp add: res)
qed

lemma cr_receivedata_le:
  "0 \<le> sz \<Longrightarrow> fst (cr_receivedata rx sz) \<le> sz"
  by (induction rx sz rule: cr_receivedata.induct) (auto simp: Let_def)

lemma cr_moremem_failed: "fst (cr_moremem H b sz) \<noteq> 0 \<Longrightarrow> snd (cr_moremem H b sz) = b"
  by (auto simp: cr_moremem_def Let_def split: option.splits if_splits)

lemma length_blit: "off + length bs \<le> length mem \<Longrightarrow> length (blit mem off bs) = length mem"
  by (simp add: blit_def)

lemma cr_readln_loop_inv:
  "cr_readln_loop H b start more' rx = Ret (e, b', rx') \<Longrightarrow> block_ok b \<Longrightarrow>
   block_ok b' \<and> buf_idx b' = buf_idx b \<and> buf_len b \<le> buf_len b'
     \<and> (\<forall>nl. e = Inr nl \<longrightarrow> buf_idx b + start \<le> nl \<and> nl < buf_len b')"
proof (induction "rx_weight rx" arbitrary: b more' rx rule: less_induct)
  case less
  note IH = less.hyps
  note ok = less.prems(2)
  note unfold = less.prems(1) [unfolded cr_readln_loop.simps [of H b start more' rx]]
  let ?f = "if 0 < more' then Ret None
            else cr_findnl (buf_data b) (buf_idx b + start) (c_int (buf_len b - c_int (buf_idx b + start)))"
  show ?case
  proof (cases ?f)
    case Fault
    then show ?thesis using unfold by simp
  next
    case (Ret found)
    show ?thesis
    proof (cases found)
      case (Some nl)
      have "cr_findnl (buf_data b) (buf_idx b + start) (c_int (buf_len b - c_int (buf_idx b + start)))
              = Ret (Some nl)"
        using Ret Some by (simp split: if_splits)
      from cr_findnl_range [OF this]
      have fr: "buf_idx b + start \<le> nl" "nl < buf_idx b + start + c_int (buf_len b - c_int (buf_idx b + start))"
        "peek (buf_data b) nl = Some CR" "0 \<le> buf_idx b + start"
        by simp_all
      have "nl < buf_size b"
        using fr(3) ok by (simp add: peek_def block_ok_def split: if_splits)
      then have p: "buf_idx b + start \<le> 2147483647"
        using fr(1) ok by (simp add: block_ok_def INT_MAX_def)
      have c1: "c_int (buf_idx b + start) = buf_idx b + start"
        using fr(4) p by (intro c_int_id) simp_all
      have "c_int (buf_len b - (buf_idx b + start)) = buf_len b - (buf_idx b + start)"
        using fr(4) p ok by (intro c_int_id) (simp_all add: block_ok_def INT_MAX_def)
      then have "buf_idx b + start \<le> nl \<and> nl < buf_len b"
        using fr(1,2) c1 by simp
      moreover have "e = Inr nl \<and> b' = b"
        using unfold Ret Some by simp
      ultimately show ?thesis using ok by simp
    next
      case None
      let ?avail = "buf_size b - buf_len b"
      let ?m = "if ?avail < CR_BUFFER_WATERMARK \<or> ?avail < more'
                then cr_moremem H b (if 0 < more' then more' else 1) else (0, b)"
      show ?thesis
      proof (cases "fst ?m = 0")
        case False
        then have "snd ?m = b"
          by (auto simp: cr_moremem_failed split: if_splits)
        moreover have "e = Inl CREDIS_ERR_NOMEM \<and> b' = snd ?m"
          using unfold Ret None False by (simp add: Let_def)
        ultimately show ?thesis using ok by simp
      next
        case m0: True
        define b1 where "b1 = snd ?m"
        have b1: "block_ok b1" "buf_len b1 = buf_len b" "buf_idx b1 = buf_idx b"
          using ok m0 cr_moremem_block_ok(1,2,3) [of b "if 0 < more' then more' else 1" H]
          by (auto simp: b1_def split: if_splits)
        define r where "r = cr_receivedata rx (buf_size b1 - buf_len b1)"
        show ?thesis
        proof (cases "0 < fst r")
          case False
          then have "(e = Inl 0 \<or> e = Inl (- 1)) \<and> b' = b1"
            using unfold Ret None m0 by (auto simp: Let_def b1_def r_def split: if_splits)
          then show ?thesis using b1 by auto
        next
          case rc: True
          define b2 where "b2 = b1\<lparr>buf_data := blit (buf_data b1) (nat (buf_len b1)) (fst (snd r)),
                                      buf_len := buf_len b1 + fst r\<rparr>"
          define more2 where "more2 = c_int (c_int (c_int (buf_idx b2 + start) + 2) - buf_len b2)"
          have av: "0 \<le> buf_size b1 - buf_len b1"
            using b1(1) by (simp add: block_ok_def)
          have le: "fst r \<le> buf_size b1 - buf_len b1"
            unfolding r_def using av by (rule cr_receivedata_le)
          have len: "int (length (fst (snd r))) = fst r"
            unfolding r_def using rc by (intro cr_receivedata_length) (simp add: r_def)
          have sz: "int (length (buf_data b1)) = buf_size b1" and l0: "0 \<le> buf_len b1"
            using b1(1) by (simp_all add: block_ok_def)
          have "int (nat (buf_len b1) + length (fst (snd r))) \<le> int (length (buf_data b1))"
            using le len sz l0 by simp
          then have "nat (buf_len b1) + length (fst (snd r)) \<le> length (buf_data b1)"
            by linarith
          then have "length (buf_data b2) = length (buf_data b1)"
            by (simp add: b2_def length_blit)
          then have ok2: "block_ok b2"
            using sz l0 le rc b1(1) by (simp add: block_ok_def b2_def)
          have w: "rx_weight (snd (snd r)) < rx_weight rx"
            unfolding r_def using rc by (intro cr_receivedata_weight) (simp add: r_def)
          have rec: "cr_readln_loop H b2 start (if more2 < 0 then 0 else more2) (snd (snd r)) = Ret (e, b', rx')"
            using unfold Ret None m0 rc
            by (simp add: Let_def b1_def r_def b2_def more2_def cong: if_cong split del: if_split)
          from IH [OF w rec ok2] show ?thesis
            using b1 rc by (simp add: b2_def)
        qed
      qed
    qed
  qed
qed

lemma cr_readln_cursor:
  assumes "cr_readln H s start rx = Ret (rc, s', rx', out)" and "block_ok (buf s)"
  shows "block_ok (buf s')
       \<and> (out = None \<longrightarrow> buf_idx (buf s') = buf_idx (buf s))
       \<and> (\<forall>line ix. out = Some (line, ix) \<longrightarrow>
              line = buf_idx (buf s) \<and> ix = buf_idx (buf s) \<and> start \<le> rc
              \<and> buf_idx (buf s') = line + rc + 2 \<and> buf_idx (buf s') \<le> buf_len (buf s') + 1)"
proof -
  let ?b = "buf s"
  let ?more0 = "c_int (c_int (c_int (buf_idx ?b + start) + 2) - buf_len ?b)"
  let ?l = "cr_readln_loop H ?b start (if ?more0 < 0 then 0 else ?more0) rx"
  show ?thesis
  proof (cases ?l)
    case Fault
    then show ?thesis using assms(1) by (simp add: cr_readln_def Let_def)
  next
    case (Ret r)
    obtain e b1 rx1 where r: "r = (e, b1, rx1)" by (cases r) auto
    have inv: "block_ok b1 \<and> buf_idx b1 = buf_idx ?b \<and> buf_len ?b \<le> buf_len b1
       \<and> (\<forall>nl. e = Inr nl \<longrightarrow> buf_idx ?b + start \<le> nl \<and> nl < buf_len b1)"
      using Ret r assms(2) by (intro cr_readln_loop_inv) simp_all
    show ?thesis
    proof (cases e)
      case (Inl c)
      then show ?thesis
        using assms(1) Ret r inv by (auto simp: cr_readln_def Let_def)
    next
      case (Inr nl)
      then show ?thesis
        using assms(1) Ret r inv by (auto simp: cr_readln_def Let_def block_ok_def)
    qed
  qed
qed

lemma reset_buf_inv: "0 \<le> buf_size b \<Longrightarrow> buf_inv (b\<lparr>buf_len := 0, buf_idx := 0\<rparr>)"
  by (simp add: buf_inv_def)

subsection \<open>C2 and C7: the byte after the received data\<close>

text \<open>
  \<open>cr_findnl\<close> reads the byte after the last byte that it was asked to inspect. When the
  received data ends with a carriage return, that byte was not received: it is what the
  buffer held before, and the buffer held the rendered command. After \<open>PING\<close> the byte at
  offset 5 is the line feed of the command.

  C2 says that the line read does not depend on how the bytes are cut into chunks. The
  bytes \<open>+abc\<close>, CR, \<open>xyz\<close>, CR, LF are read as the line \<open>+abc\<close>CR\<open>xyz\<close> of length 8 when they
  arrive at once, and as the line \<open>+abc\<close> of length 4 when the first chunk ends after the
  first carriage return.
\<close>

theorem cr_readln_chunk_dependent:
  "readln_view (cr_readln H_zero (conn_ping\<lparr>buf := (buf conn_ping)\<lparr>buf_len := 0, buf_idx := 0\<rparr>\<rparr>) 0
      [Recv (''+abc'' @ [CR] @ ''xyz'' @ CRLF)]) = Some (8, ''+abc'' @ [CR] @ ''xyz'', 10) \<and>
   readln_view (cr_readln H_zero (conn_ping\<lparr>buf := (buf conn_ping)\<lparr>buf_len := 0, buf_idx := 0\<rparr>\<rparr>) 0
      [Recv (''+abc'' @ [CR]), Recv (''xyz'' @ CRLF)]) = Some (4, ''+abc'', 6)"
  by (simp add: readln_view_def readln_ev cstr_def consts_ev H_zero_def conn_ping_def conn0_def)

text \<open>
  C7 says that \<open>idx \<le> len\<close> holds in every state of the buffer. When the error reply
  \<open>-ERR\<close>, CR, LF arrives in two chunks, the second being the line feed alone, the line is
  returned after the first chunk, with \<open>idx = 6\<close> and \<open>len = 5\<close>; the line feed stays
  unread on the socket.
\<close>

theorem cr_readln_idx_beyond_len:
  "ret_cursor (credis_ping H_zero conn0 [Sent 6] [Recv (''-ERR'' @ [CR]), Recv [LF]]) = Some (6, 5, 4096) \<and>
   ret_code (credis_ping H_zero conn0 [Sent 6] [Recv (''-ERR'' @ [CR]), Recv [LF]]) = Some CREDIS_ERR_PROTOCOL \<and>
   ret_rx (credis_ping H_zero conn0 [Sent 6] [Recv (''-ERR'' @ [CR]), Recv [LF]]) = Some [Recv [LF]] \<and>
   (\<exists>s. ret_conn (credis_ping H_zero conn0 [Sent 6] [Recv (''-ERR'' @ [CR]), Recv [LF]]) = Some s
        \<and> \<not> buf_inv (buf s))"
  by (simp add: ret_cursor_def ret_code_def ret_rx_def ret_conn_def buf_inv_def credis_ping_def send_ev reply_ev
        readln_ev consts_ev H_zero_def conn0_def)

subsection \<open>The examples of the specification\<close>

text \<open>
  The replies that the specification lists as examples, decoded by the model: bulk values
  (present, nil and empty), a multibulk reply with a nil element, the nil multibulk, a
  multibulk reply that ends after its first element, integers, an unknown prefix, a reply
  cut short by the peer or by a timeout, and a bulk value that is larger than the buffer.
\<close>

lemma replicate_update_second: "1 < n \<Longrightarrow> (v # replicate n x)[Suc 0 := w] = v # w # replicate (n - 1) x"
  by (cases n) simp_all

lemma example_bulk:
  "ret_code (cr_receivereply H_zero conn0 CR_BULK [Recv (''$5'' @ CRLF @ ''hello'' @ CRLF)]) = Some 0 \<and>
   ret_bulk (cr_receivereply H_zero conn0 CR_BULK [Recv (''$5'' @ CRLF @ ''hello'' @ CRLF)]) = Some ''hello'' \<and>
   ret_code (cr_receivereply H_zero conn0 CR_BULK [Recv (''$-1'' @ CRLF)]) = Some 0 \<and>
   ret_bulk (cr_receivereply H_zero conn0 CR_BULK [Recv (''$-1'' @ CRLF)]) = None \<and>
   ret_code (cr_receivereply H_zero conn0 CR_BULK [Recv (''$0'' @ CRLF @ CRLF)]) = Some 0 \<and>
   ret_bulk (cr_receivereply H_zero conn0 CR_BULK [Recv (''$0'' @ CRLF @ CRLF)]) = Some []"
  by (simp add: ret_code_def ret_bulk_def reply_ev readln_ev atoi_ev consts_ev H_zero_def conn0_def)

lemma example_multibulk:
  "ret_code (cr_receivereply H_zero conn0 CR_MULTIBULK
      [Recv (''*2'' @ CRLF @ ''$3'' @ CRLF @ ''foo'' @ CRLF @ ''$-1'' @ CRLF)]) = Some 0 \<and>
   ret_elements (cr_receivereply H_zero conn0 CR_MULTIBULK
      [Recv (''*2'' @ CRLF @ ''$3'' @ CRLF @ ''foo'' @ CRLF @ ''$-1'' @ CRLF)]) = Some [Some ''foo'', None] \<and>
   ret_code (cr_receivereply H_zero conn0 CR_MULTIBULK [Recv (''*-1'' @ CRLF)]) = Some 0 \<and>
   ret_elements (cr_receivereply H_zero conn0 CR_MULTIBULK [Recv (''*-1'' @ CRLF)]) = Some [] \<and>
   ret_code (cr_receivereply H_zero conn0 CR_MULTIBULK [Recv (''*2'' @ CRLF @ ''$3'' @ CRLF @ ''foo'' @ CRLF)])
     = Some CREDIS_ERR_PROTOCOL"
  by (simp add: ret_code_def ret_elements_def reply_ev readln_ev atoi_ev consts_ev H_zero_def conn0_def
        replicate_update_first replicate_update_second)

lemma example_integer_and_prefix:
  "ret_integer (cr_receivereply H_zero conn0 CR_INT [Recv ('':42'' @ CRLF)]) = Some 42 \<and>
   ret_integer (cr_receivereply H_zero conn0 CR_INT [Recv ('':-3'' @ CRLF)]) = Some (- 3) \<and>
   ret_code (cr_receivereply H_zero conn0 CR_INT [Recv (''!'' @ CRLF)]) = Some CREDIS_ERR_PROTOCOL \<and>
   ret_code (cr_receivereply H_zero conn0 CR_INT [Recv '':4'']) = Some CREDIS_ERR_RECV \<and>
   ret_code (cr_receivereply H_zero conn0 CR_INT [Recv '':4'', SelTimeout]) = Some CREDIS_ERR_RECV"
  by (simp add: ret_code_def ret_integer_def reply_ev readln_ev atoi_ev consts_ev H_zero_def conn0_def)

lemma takeWhile_replicate_append:
  "P a \<Longrightarrow> takeWhile P (replicate n a @ ys) = replicate n a @ takeWhile P ys"
  by (induction n) simp_all

lemma example_growth:
  "ret_code (cr_receivereply H_zero conn0 CR_BULK
      [Recv (''$5000'' @ CRLF @ replicate 5000 (CHR ''a'') @ CRLF)]) = Some 0 \<and>
   ret_bulk (cr_receivereply H_zero conn0 CR_BULK
      [Recv (''$5000'' @ CRLF @ replicate 5000 (CHR ''a'') @ CRLF)]) = Some (replicate 5000 (CHR ''a'')) \<and>
   ret_cursor (cr_receivereply H_zero conn0 CR_BULK
      [Recv (''$5000'' @ CRLF @ replicate 5000 (CHR ''a'') @ CRLF)]) = Some (5009, 5009, 8192)"
  by (simp add: ret_code_def ret_bulk_def ret_cursor_def reply_ev readln_ev atoi_ev consts_ev H_zero_def conn0_def
        map_replicate_const c_div_def list_update_append takeWhile_replicate_append
        replicate_add [symmetric] del: upt_rec_numeral)

text \<open>
  A bulk reply that declares the length \<open>2147483647\<close>: the sum \<open>buf->idx + start + 2\<close> wraps
  to a negative value, \<open>cr_readln\<close> asks for no more room, finds the connection closed and
  returns 0, and \<open>cr_receivebulk\<close> succeeds with the text of the length line as the value.
\<close>

lemma example_declared_length_INT_MAX:
  "ret_code (cr_sendfandreceive H_zero conn0 CR_BULK (Some (''INFO'' @ CRLF)) [Sent 6]
      [Recv (''$2147483647'' @ CRLF)]) = Some 0 \<and>
   ret_bulk (cr_sendfandreceive H_zero conn0 CR_BULK (Some (''INFO'' @ CRLF)) [Sent 6]
      [Recv (''$2147483647'' @ CRLF)]) = Some ''2147483647'' \<and>
   ret_cursor (cr_sendfandreceive H_zero conn0 CR_BULK (Some (''INFO'' @ CRLF)) [Sent 6]
      [Recv (''$2147483647'' @ CRLF)]) = Some (13, 13, 4096)"
  by (simp add: ret_code_def ret_bulk_def ret_cursor_def send_ev reply_ev readln_ev atoi_ev consts_ev
        H_zero_def conn0_def)

text \<open>
  A bulk reply of 5000 declared bytes of which 4500 arrive before the peer closes the
  connection: \<open>cr_readln\<close> has grown the buffer and returns 0 without storing a line, and
  \<open>cr_receivebulk\<close> succeeds with \<open>reply.bulk\<close> pointing into the block that \<open>realloc\<close> has
  freed. \<open>credis_connect\<close> hands that pointer to \<open>strdup\<close>.
\<close>

lemma example_truncated_bulk:
  "ret_code (cr_sendfandreceive H_zero conn0 CR_BULK (Some (''INFO'' @ CRLF)) [Sent 6]
      [Recv (''$5000'' @ CRLF @ replicate 4500 (CHR ''a''))]) = Some 0 \<and>
   ret_cursor (cr_sendfandreceive H_zero conn0 CR_BULK (Some (''INFO'' @ CRLF)) [Sent 6]
      [Recv (''$5000'' @ CRLF @ replicate 4500 (CHR ''a''))]) = Some (7, 4507, 8192) \<and>
   ret_bulk (cr_sendfandreceive H_zero conn0 CR_BULK (Some (''INFO'' @ CRLF)) [Sent 6]
      [Recv (''$5000'' @ CRLF @ replicate 4500 (CHR ''a''))]) = None \<and>
   credis_connect H_zero (NetOk 3 ''127.0.0.1'') 0 1000 [Sent 6]
      [Recv (''$5000'' @ CRLF @ replicate 4500 (CHR ''a''))] = Fault"
  by (simp add: credis_connect_def cr_new_H_zero ret_code_def ret_bulk_def ret_cursor_def)
     (simp add: send_ev reply_ev readln_ev atoi_ev consts_ev H_zero_def conn0_def
        map_replicate_const c_div_def list_update_append takeWhile_replicate_append
        replicate_add [symmetric] del: upt_rec_numeral)

end
